theory Spec2Isabelle
  imports Main "HOL-Library.AList"
begin

section \<open>Python objects, the store and exceptions\<close>

text \<open>
  The module \<^verbatim>\<open>usrse/main/client.py\<close> wraps the JSON answer of an endpoint in a
  \<^verbatim>\<open>Result\<close>. The JSON answer is a list object whose elements are dict objects; both are
  mutable and shared by reference, so they live in a store. A reference is an index into the
  store, and a new object is appended at the end, which makes every allocation fresh.
  Field values are strings (the records of the specification map strings to strings); a
  string is immutable, so it is stored by value. A dict keeps its insertion order, so it is
  an association list whose keys are distinct.
\<close>

type_synonym ref = nat

type_synonym pydict = "(string \<times> string) list"

datatype pyobj = PyList "ref list" | PyDict pydict

type_synonym heap = "pyobj list"

text \<open>
  The exceptions the module can raise. \<open>InvalidRef\<close> is not a Python exception: it is what
  the model answers for a reference outside the store, which a Python program cannot hold.
\<close>

datatype error =
    IndexError
  | KeyError string
  | ZeroDivisionError
  | AttributeError string
  | TypeError
  | SystemExit string
  | InvalidRef

datatype level = INFO | WARNING

type_synonym log = "(level \<times> string) list"

definition lookup :: "heap \<Rightarrow> ref \<Rightarrow> pyobj option" where
  "lookup h r = (if r < length h then Some (h ! r) else None)"

definition alloc :: "heap \<Rightarrow> pyobj \<Rightarrow> heap \<times> ref" where
  "alloc h obj = (h @ [obj], length h)"

text \<open>What a \<^verbatim>\<open>for\<close> loop over an object yields: the elements of a list, the keys of a dict.\<close>

datatype pyval = VRef ref | VStr string

definition py_iter :: "heap \<Rightarrow> ref \<Rightarrow> error + pyval list" where
  "py_iter h d =
     (case lookup h d of
        None \<Rightarrow> Inl InvalidRef
      | Some (PyList rs) \<Rightarrow> Inr (map VRef rs)
      | Some (PyDict kvs) \<Rightarrow> Inr (map (\<lambda>kv. VStr (fst kv)) kvs))"

text \<open>\<^verbatim>\<open>entry.keys()\<close>: only a dict has the method.\<close>

fun keys_of :: "heap \<Rightarrow> pyval \<Rightarrow> error + string list" where
  "keys_of h (VStr s) = Inl (AttributeError ''keys'')"
| "keys_of h (VRef r) =
     (case lookup h r of
        None \<Rightarrow> Inl InvalidRef
      | Some (PyList rs) \<Rightarrow> Inl (AttributeError ''keys'')
      | Some (PyDict kvs) \<Rightarrow> Inr (map fst kvs))"

text \<open>Truth value of the argument in \<^verbatim>\<open>data or {}\<close>: \<^verbatim>\<open>None\<close> and empty containers are false.\<close>

definition truthy :: "heap \<Rightarrow> ref option \<Rightarrow> bool" where
  "truthy h input =
     (case input of
        None \<Rightarrow> False
      | Some d \<Rightarrow>
          (case lookup h d of
             None \<Rightarrow> False
           | Some (PyList rs) \<Rightarrow> rs \<noteq> []
           | Some (PyDict kvs) \<Rightarrow> kvs \<noteq> []))"

text \<open>A loop whose body may raise: the first exception ends it.\<close>

fun foldE :: "('s \<Rightarrow> 'a \<Rightarrow> error + 's) \<Rightarrow> 'a list \<Rightarrow> 's \<Rightarrow> error + 's" where
  "foldE f [] s = Inr s"
| "foldE f (x # xs) s = (case f s x of Inl e \<Rightarrow> Inl e | Inr s' \<Rightarrow> foldE f xs s')"

section \<open>The endpoint descriptor and the Result\<close>

text \<open>
  The endpoint classes are in \<^verbatim>\<open>usrse/main/endpoints.py\<close>, which this development takes as
  given: an endpoint is the record of the attributes the client reads, and its method
  \<^verbatim>\<open>order\<close> is a function from the store and the data object to the store and the
  ordered data object (the same list, or a newly allocated sorted one).
\<close>

record endpoint =
  url :: string
  title :: string
  emoji :: string
  skip_list :: "string list"
  truncate_list :: "string list"
  order :: "heap \<Rightarrow> ref \<Rightarrow> heap \<times> ref"

record Result =
  endpoint :: endpoint
  data :: ref
  max_widths :: "(string \<times> int) list"

text \<open>
  The first loop of \<^verbatim>\<open>ensure_complete\<close> collects the keys of every entry in a set. The set
  is a duplicate-free list here; the order in which Python iterates over it depends on the
  hashes of the strings, so the second loop takes it from \<open>iter\<close>, a parameter.
\<close>

definition collect_fields :: "heap \<Rightarrow> string list \<Rightarrow> pyval \<Rightarrow> error + string list" where
  "collect_fields h seen entry =
     (case keys_of h entry of
        Inl e \<Rightarrow> Inl e
      | Inr ks \<Rightarrow> Inr (fold List.insert ks seen))"

text \<open>
  The body of the inner loop of \<^verbatim>\<open>ensure_complete\<close>, for one entry and one field: the
  store and \<^verbatim>\<open>max_widths\<close> are the state.
\<close>

fun fill_field ::
  "string list \<Rightarrow> pyval \<Rightarrow> heap \<times> (string \<times> int) list \<Rightarrow> string \<Rightarrow>
   error + heap \<times> (string \<times> int) list" where
  "fill_field trunc (VStr s) (h, mw) field = Inl TypeError"
| "fill_field trunc (VRef r) (h, mw) field =
     (case lookup h r of
        None \<Rightarrow> Inl InvalidRef
      | Some (PyList rs) \<Rightarrow> Inl TypeError
      | Some (PyDict kvs) \<Rightarrow>
          (let kvs' = (if field \<notin> set (map fst kvs) then kvs @ [(field, '''')] else kvs);
               h' = (if field \<notin> set (map fst kvs) then h[r := PyDict kvs'] else h)
           in if field \<in> set trunc then
                (case map_of kvs' field of
                   None \<Rightarrow> Inl (KeyError field)
                 | Some v \<Rightarrow>
                     (case map_of mw field of
                        None \<Rightarrow> Inr (h', AList.update field (int (length v)) mw)
                      | Some m \<Rightarrow>
                          if m < int (length v)
                          then Inr (h', AList.update field (int (length v)) mw)
                          else Inr (h', mw)))
              else Inr (h', mw)))"

definition ensure_complete ::
  "(string list \<Rightarrow> string list) \<Rightarrow> heap \<Rightarrow> Result \<Rightarrow> error + heap \<times> Result" where
  "ensure_complete iter h self =
     (case py_iter h (data self) of
        Inl e \<Rightarrow> Inl e
      | Inr entries \<Rightarrow>
          (case foldE (collect_fields h) entries [] of
             Inl e \<Rightarrow> Inl e
           | Inr field_set \<Rightarrow>
               (case foldE (\<lambda>s entry.
                        foldE (fill_field (truncate_list (endpoint self)) entry) (iter field_set) s)
                      entries (h, max_widths self) of
                  Inl e \<Rightarrow> Inl e
                | Inr (h', mw) \<Rightarrow> Inr (h', self\<lparr>max_widths := mw\<rparr>))))"

text \<open>\<^verbatim>\<open>data = data or {}\<close>: a false argument is replaced by a new empty dict.\<close>

definition data_or_empty :: "heap \<Rightarrow> ref option \<Rightarrow> heap \<times> ref" where
  "data_or_empty h input =
     (case input of
        None \<Rightarrow> alloc h (PyDict [])
      | Some d \<Rightarrow> if truthy h input then (h, d) else alloc h (PyDict []))"

definition Result_init ::
  "(string list \<Rightarrow> string list) \<Rightarrow> heap \<Rightarrow> ref option \<Rightarrow> endpoint \<Rightarrow> error + heap \<times> Result" where
  "Result_init iter h input ep =
     (case data_or_empty h input of
        (h1, d1) \<Rightarrow>
          (case order ep h1 d1 of
             (h2, d2) \<Rightarrow>
               ensure_complete iter h2 \<lparr>endpoint = ep, data = d2, max_widths = []\<rparr>))"

definition to_dict :: "Result \<Rightarrow> ref" where
  "to_dict self = data self"

section \<open>Column width and rows\<close>

text \<open>
  \<^verbatim>\<open>int(a / b)\<close>: true division, then truncation towards zero. Python divides as
  floating point; for operands below \<open>2 ^ 53\<close> in absolute value, which terminal widths and
  string lengths are, the truncated quotient is the exact one.
\<close>

definition int_truediv :: "int \<Rightarrow> int \<Rightarrow> error + int" where
  "int_truediv a b =
     (if b = 0 then Inl ZeroDivisionError else Inr (sgn a * sgn b * (\<bar>a\<bar> div \<bar>b\<bar>)))"

text \<open>
  \<open>tty\<close> is what \<^verbatim>\<open>os.get_terminal_size().columns\<close> answers, \<open>None\<close> when it raises
  \<^verbatim>\<open>OSError\<close>. The result carries the warnings logged.
\<close>

definition available_width :: "nat option \<Rightarrow> Result \<Rightarrow> string list \<Rightarrow> error + log \<times> int" where
  "available_width tty self columns =
     (let width = (case tty of Some c \<Rightarrow> int c | None \<Rightarrow> 120) in
      case int_truediv width (int (length columns)) of
        Inl e \<Rightarrow> Inl e
      | Inr column_width \<Rightarrow>
          (let updated = fold (\<lambda>(_, needed) updated. updated - needed) (max_widths self) width in
           if updated < 0
           then Inr ([(WARNING, ''Terminal is too small to correctly render!'')], column_width)
           else
             (case int_truediv updated (int (length columns) - int (length (max_widths self))) of
                Inl e \<Rightarrow> Inl e
              | Inr w \<Rightarrow> Inr ([], w))))"

text \<open>
  \<^verbatim>\<open>self.data[0]\<close> raises \<^verbatim>\<open>IndexError\<close> on an empty list, and \<^verbatim>\<open>KeyError\<close> on a dict, whose
  keys are strings.
\<close>

definition table_columns :: "heap \<Rightarrow> Result \<Rightarrow> error + string list" where
  "table_columns h self =
     (case lookup h (data self) of
        None \<Rightarrow> Inl InvalidRef
      | Some (PyDict kvs) \<Rightarrow> Inl (KeyError ''0'')
      | Some (PyList []) \<Rightarrow> Inl IndexError
      | Some (PyList (r # rs)) \<Rightarrow>
          (case keys_of h (VRef r) of
             Inl e \<Rightarrow> Inl e
           | Inr contenders \<Rightarrow>
               Inr (filter (\<lambda>column. column \<notin> set (skip_list (endpoint self))) contenders)))"

text \<open>\<^verbatim>\<open>content[:n]\<close>; a negative \<open>n\<close> counts from the end.\<close>

definition py_slice_to :: "int \<Rightarrow> string \<Rightarrow> string" where
  "py_slice_to n s = (if 0 \<le> n then take (nat n) s else take (nat (int (length s) + n)) s)"

text \<open>\<^verbatim>\<open>row[column]\<close>\<close>

fun getitem :: "heap \<Rightarrow> pyval \<Rightarrow> string \<Rightarrow> error + string" where
  "getitem h (VStr s) column = Inl TypeError"
| "getitem h (VRef r) column =
     (case lookup h r of
        None \<Rightarrow> Inl InvalidRef
      | Some (PyList rs) \<Rightarrow> Inl TypeError
      | Some (PyDict kvs) \<Rightarrow>
          (case map_of kvs column of None \<Rightarrow> Inl (KeyError column) | Some v \<Rightarrow> Inr v))"

definition cell :: "endpoint \<Rightarrow> int \<Rightarrow> string \<Rightarrow> string \<Rightarrow> string" where
  "cell ep column_width column content =
     (if content \<noteq> [] \<and> int (length content) > column_width \<and> column \<notin> set (truncate_list ep)
      then py_slice_to column_width content @ ''...''
      else content)"

fun parse_row :: "heap \<Rightarrow> endpoint \<Rightarrow> int \<Rightarrow> pyval \<Rightarrow> string list \<Rightarrow> error + string list" where
  "parse_row h ep column_width row [] = Inr []"
| "parse_row h ep column_width row (column # columns) =
     (case getitem h row column of
        Inl e \<Rightarrow> Inl e
      | Inr content \<Rightarrow>
          (case parse_row h ep column_width row columns of
             Inl e \<Rightarrow> Inl e
           | Inr parsed \<Rightarrow> Inr (cell ep column_width column content # parsed)))"

text \<open>
  \<^verbatim>\<open>table_rows\<close> is a generator. Its model gives what a consumer that drains it sees: the
  rows yielded, in order, and the exception that ended it, if one did. \<open>rows_from\<close> is the
  loop over \<^verbatim>\<open>enumerate(self.data)\<close> from index \<open>i\<close> on; a limit of \<open>0\<close> is false
  in \<^verbatim>\<open>if limit and i > limit\<close>.
\<close>

fun rows_from ::
  "heap \<Rightarrow> endpoint \<Rightarrow> int \<Rightarrow> string list \<Rightarrow> int \<Rightarrow> nat \<Rightarrow> pyval list \<Rightarrow>
   string list list \<times> error option" where
  "rows_from h ep column_width columns limit i [] = ([], None)"
| "rows_from h ep column_width columns limit i (row # rest) =
     (if limit \<noteq> 0 \<and> int i > limit then ([], None)
      else
        (case parse_row h ep column_width row columns of
           Inl e \<Rightarrow> ([], Some e)
         | Inr parsed \<Rightarrow>
             (case rows_from h ep column_width columns limit (Suc i) rest of
                (ys, err) \<Rightarrow> (parsed # ys, err))))"

record rows_result =
  logged :: log
  yielded :: "string list list"
  raised :: "error option"

definition table_rows :: "nat option \<Rightarrow> heap \<Rightarrow> Result \<Rightarrow> string list \<Rightarrow> int \<Rightarrow> rows_result" where
  "table_rows tty h self columns limit =
     (case available_width tty self columns of
        Inl e \<Rightarrow> \<lparr>logged = [], yielded = [], raised = Some e\<rparr>
      | Inr (lg, column_width) \<Rightarrow>
          (case py_iter h (data self) of
             Inl e \<Rightarrow> \<lparr>logged = lg, yielded = [], raised = Some e\<rparr>
           | Inr entries \<Rightarrow>
               (case rows_from h (endpoint self) column_width columns limit 0 entries of
                  (ys, err) \<Rightarrow> \<lparr>logged = lg, yielded = ys, raised = err\<rparr>)))"

section \<open>Rendering\<close>

text \<open>\<^verbatim>\<open>str(n)\<close> for a natural number, in decimal.\<close>

fun str_nat :: "nat \<Rightarrow> string" where
  "str_nat n =
     (if n < 10 then [''0123456789'' ! n]
      else str_nat (n div 10) @ [''0123456789'' ! (n mod 10)])"

declare str_nat.simps [simp del]

definition str_int :: "int \<Rightarrow> string" where
  "str_int i = (if i < 0 then ''-'' @ str_nat (nat (- i)) else str_nat (nat i))"

text \<open>
  The property \<^verbatim>\<open>color\<close> draws \<^verbatim>\<open>random.choice(range(255))\<close>. The draws of one run are
  a list of numbers below 255; every read of the property takes the next one.
\<close>

definition color :: "nat \<Rightarrow> string" where
  "color n = ''color('' @ str_nat n @ '')''"

text \<open>
  \<^verbatim>\<open>color = None; while not color or color in seen_colors: color = self.color\<close>.
  The loop ends at the first draw that is not among \<open>seen_colors\<close>; \<open>None\<close> when the
  draws run out before that.
\<close>

fun pick_color :: "string list \<Rightarrow> nat list \<Rightarrow> (string \<times> nat list) option" where
  "pick_color seen_colors [] = None"
| "pick_color seen_colors (n # rnd) =
     (if color n = [] \<or> color n \<in> set seen_colors then pick_color seen_colors rnd
      else Some (color n, rnd))"

text \<open>\<^verbatim>\<open>str.capitalize\<close> on ASCII letters: the first character upper case, the rest lower case.\<close>

definition upper_char :: "char \<Rightarrow> char" where
  "upper_char c =
     (let n = (of_char c :: nat) in if 97 \<le> n \<and> n \<le> 122 then char_of (n - 32) else c)"

definition lower_char :: "char \<Rightarrow> char" where
  "lower_char c =
     (let n = (of_char c :: nat) in if 65 \<le> n \<and> n \<le> 90 then char_of (n + 32) else c)"

fun capitalize :: "string \<Rightarrow> string" where
  "capitalize [] = []"
| "capitalize (c # cs) = upper_char c # map lower_char cs"

text \<open>
  The table of the \<^verbatim>\<open>rich\<close> library, as far as the client sets it: the columns with their
  styles, the rows, the title and caption, and the display options.
\<close>

record column =
  header :: string
  style :: string
  header_style :: string

record rich_table =
  t_title :: "string option"
  t_caption :: "string option"
  t_columns :: "column list"
  t_rows :: "string list list"
  show_footer :: bool
  row_styles :: "string list"
  border_style :: "string option"
  box :: string
  pad_edge :: bool

definition Table :: "string option \<Rightarrow> rich_table" where
  "Table ttl =
     \<lparr>t_title = ttl, t_caption = None, t_columns = [], t_rows = [], show_footer = False,
      row_styles = [], border_style = None, box = ''HEAVY_HEAD'', pad_edge = True\<rparr>"

definition add_column :: "string \<Rightarrow> string \<Rightarrow> rich_table \<Rightarrow> rich_table" where
  "add_column hdr sty t =
     t\<lparr>t_columns := t_columns t @ [\<lparr>header = hdr, style = sty, header_style = []\<rparr>]\<rparr>"

definition add_row :: "string list \<Rightarrow> rich_table \<Rightarrow> rich_table" where
  "add_row row t = t\<lparr>t_rows := t_rows t @ [row]\<rparr>"

text \<open>
  The loop over the columns, shared by \<^verbatim>\<open>table\<close> and \<^verbatim>\<open>table_live\<close>. The list
  \<open>seen_colors\<close> is the one the source creates before the loop; the loop body reads it and
  never appends to it, so every iteration passes it on as it is.
\<close>

fun add_columns ::
  "string list \<Rightarrow> string list \<Rightarrow> nat list \<Rightarrow> rich_table \<Rightarrow> (rich_table \<times> nat list) option" where
  "add_columns seen_colors [] rnd t = Some (t, rnd)"
| "add_columns seen_colors (c # columns) rnd t =
     (case pick_color seen_colors rnd of
        None \<Rightarrow> None
      | Some (col, rnd') \<Rightarrow> add_columns seen_colors columns rnd' (add_column (capitalize c) col t))"

text \<open>
  \<^verbatim>\<open>table\<close> prints the table it has built; the model returns it with the log. The outer
  \<open>option\<close> is \<open>None\<close> when the random draws run out inside the colour loop.
\<close>

definition table ::
  "nat option \<Rightarrow> nat list \<Rightarrow> heap \<Rightarrow> Result \<Rightarrow> int \<Rightarrow> (error + log \<times> rich_table) option" where
  "table tty rnd h self limit =
     (let t = Table (Some (title (endpoint self)));
          seen_colors = []
      in case table_columns h self of
           Inl e \<Rightarrow> Some (Inl e)
         | Inr columns \<Rightarrow>
             (case add_columns seen_colors columns rnd t of
                None \<Rightarrow> None
              | Some (t', rnd') \<Rightarrow>
                  (let rr = table_rows tty h self columns limit in
                   case raised rr of
                     Some e \<Rightarrow> Some (Inl e)
                   | None \<Rightarrow> Some (Inr (logged rr, fold add_row (yielded rr) t')))))"

text \<open>
  \<^verbatim>\<open>table_live\<close>: the same table, built in steps; each \<^verbatim>\<open>with beat(10)\<close> block sleeps
  \<open>10 * pause\<close> seconds when it is left. The model returns the final table and the number
  of beats.
\<close>

definition table_live ::
  "nat option \<Rightarrow> nat list \<Rightarrow> heap \<Rightarrow> Result \<Rightarrow> int \<Rightarrow>
   (error + log \<times> rich_table \<times> nat) option" where
  "table_live tty rnd h self limit =
     (let t = Table None;
          seen_colors = []
      in case table_columns h self of
           Inl e \<Rightarrow> Some (Inl e)
         | Inr columns \<Rightarrow>
             (case add_columns seen_colors columns rnd t of
                None \<Rightarrow> None
              | Some (t1, rnd') \<Rightarrow>
                  (let t2 = t1\<lparr>t_title := Some (title (endpoint self))\<rparr>;
                       em = '':'' @ emoji (endpoint self) @ '':'';
                       t3 = t2\<lparr>t_title := Some (''[not italic]'' @ em @ ''[/] ''
                              @ title (endpoint self) @ '' [not italic]'' @ em @ ''[/]'')\<rparr>;
                       t4 = t3\<lparr>t_caption :=
                              Some ''the United States Research Software Engineer Association''\<rparr>;
                       t5 = t4\<lparr>t_caption := Some (''the [b magenta not dim]United States ''
                              @ ''Research Software Engineer Association[/]'')\<rparr>;
                       rr = table_rows tty h self columns limit
                   in case raised rr of
                        Some e \<Rightarrow> Some (Inl e)
                      | None \<Rightarrow>
                          (let t6 = fold add_row (yielded rr) t5;
                               t7 = t6\<lparr>show_footer := True\<rparr>;
                               t8 = t7\<lparr>t_columns :=
                                      map (\<lambda>c. c\<lparr>header_style := ''bold '' @ header_style c\<rparr>)
                                        (t_columns t7)\<rparr>;
                               t9 = t8\<lparr>row_styles := [''none'', ''dim'']\<rparr>;
                               t10 = t9\<lparr>border_style := Some ''bright_yellow'', box := ''MINIMAL''\<rparr>;
                               t11 = t10\<lparr>pad_edge := False\<rparr>
                           in Some (Inr (logged rr, t11, 9 + length (yielded rr)))))))"

section \<open>Export\<close>

text \<open>
  Attribute lookup on a \<^verbatim>\<open>Result\<close> object: the instance attributes that \<^verbatim>\<open>__init__\<close>
  sets, then the methods and properties of the class. The class defines no
  \<^verbatim>\<open>__getattr__\<close>, so any other name (the attributes of \<^verbatim>\<open>object\<close>, all of the form
  \<^verbatim>\<open>__name__\<close>, apart) raises \<^verbatim>\<open>AttributeError\<close>.
\<close>

datatype attr_value =
    Endpoint_attr endpoint
  | Data_attr ref
  | Max_widths_attr "(string \<times> int) list"
  | Method_attr string

definition Result_methods :: "string list" where
  "Result_methods =
     [''print_json'', ''available_width'', ''ensure_complete'', ''to_dict'', ''save'', ''color'',
      ''table_columns'', ''table_rows'', ''table'', ''table_live'']"

definition Result_getattr :: "Result \<Rightarrow> string \<Rightarrow> error + attr_value" where
  "Result_getattr self name =
     (if name = ''endpoint'' then Inr (Endpoint_attr (endpoint self))
      else if name = ''data'' then Inr (Data_attr (data self))
      else if name = ''max_widths'' then Inr (Max_widths_attr (max_widths self))
      else if name \<in> set Result_methods then Inr (Method_attr name)
      else Inl (AttributeError name))"

type_synonym filesys = "string \<Rightarrow> string option"

text \<open>
  \<^verbatim>\<open>save\<close> formats \<^verbatim>\<open>self.title or "data"\<close> into the log line and hands the data to
  \<^verbatim>\<open>utils.write_json\<close>. That function is in \<^verbatim>\<open>usrse/utils\<close>; it is the parameter
  \<open>write_json\<close> here, from the store, the data object, the path and the file system to the
  new file system or an I/O error. \<open>to_str\<close> and \<open>is_true\<close> are Python's \<^verbatim>\<open>str\<close> and truth
  value of an attribute. The result is the file system and the log after the call, and the
  exception raised, if any.
\<close>

definition save ::
  "(heap \<Rightarrow> ref \<Rightarrow> string \<Rightarrow> filesys \<Rightarrow> error + filesys) \<Rightarrow>
   (attr_value \<Rightarrow> string) \<Rightarrow> (attr_value \<Rightarrow> bool) \<Rightarrow>
   heap \<Rightarrow> Result \<Rightarrow> string \<Rightarrow> filesys \<times> log \<Rightarrow> (filesys \<times> log) \<times> error option" where
  "save write_json to_str is_true h self outfile st =
     (case st of
        (fs, lg) \<Rightarrow>
          (case Result_getattr self ''title'' of
             Inl e \<Rightarrow> ((fs, lg), Some e)
           | Inr ttl \<Rightarrow>
               (let lg' = lg @ [(INFO, ''Saving '' @ (if is_true ttl then to_str ttl else ''data'')
                                  @ '' to '' @ outfile @ ''...'')]
                in case write_json h (data self) outfile fs of
                     Inl e \<Rightarrow> ((fs, lg'), Some e)
                   | Inr fs' \<Rightarrow> ((fs', lg'), None))))"

section \<open>The client\<close>

text \<open>
  The answer of \<^verbatim>\<open>requests.get\<close> is an object of the \<^verbatim>\<open>requests\<close> library: its
  attributes, by name, and its method \<^verbatim>\<open>json\<close>, which parses the body into objects of the
  store (\<open>None\<close> for JSON \<^verbatim>\<open>null\<close>).
\<close>

datatype rvalue = RInt int | RStr string

record response =
  attrs :: "(string \<times> rvalue) list"
  json :: "heap \<Rightarrow> heap \<times> ref option"

definition response_getattr :: "response \<Rightarrow> string \<Rightarrow> error + rvalue" where
  "response_getattr r name =
     (case map_of (attrs r) name of None \<Rightarrow> Inl (AttributeError name) | Some v \<Rightarrow> Inr v)"

fun str_rvalue :: "rvalue \<Rightarrow> string" where
  "str_rvalue (RStr s) = s"
| "str_rvalue (RInt i) = str_int i"

record Client =
  baseurl :: string
  quiet :: bool

text \<open>\<^verbatim>\<open>s.strip("/")\<close>\<close>

definition strip_slash :: "string \<Rightarrow> string" where
  "strip_slash s =
     rev (dropWhile (\<lambda>c. c = CHR ''/'') (rev (dropWhile (\<lambda>c. c = CHR ''/'') s)))"

text \<open>\<open>default_baseurl\<close> is \<^verbatim>\<open>defaults.baseurl\<close>, of \<^verbatim>\<open>usrse/defaults.py\<close>.\<close>

definition Client_init :: "string \<Rightarrow> string option \<Rightarrow> bool \<Rightarrow> Client" where
  "Client_init default_baseurl base q =
     \<lparr>baseurl = strip_slash (case base of None \<Rightarrow> default_baseurl
                               | Some b \<Rightarrow> if b \<noteq> [] then b else default_baseurl),
      quiet = q\<rparr>"

fun join :: "string \<Rightarrow> string list \<Rightarrow> string" where
  "join sep [] = []"
| "join sep [x] = x"
| "join sep (x # y # ys) = x @ sep @ join sep (y # ys)"

text \<open>
  Modelled from the spec: \<^verbatim>\<open>logger.exit\<close>, of \<^verbatim>\<open>usrse/logger.py\<close>. The specification
  says of an unknown endpoint name that the operation fails with an error that enumerates
  the valid names and that the error is fatal: the process terminates. So the call raises
  \<^verbatim>\<open>SystemExit\<close> with the message.
\<close>

definition logger_exit :: "string \<Rightarrow> error" where
  "logger_exit msg = SystemExit msg"

text \<open>
  \<^verbatim>\<open>Client.get\<close>. The registry of \<^verbatim>\<open>usrse/main/endpoints.py\<close> is the parameter
  \<open>register\<close>, from names to endpoint constructors that take the base URL, with
  \<open>register_names\<close>; \<open>http_get\<close> is \<^verbatim>\<open>requests.get\<close>.
\<close>

definition get ::
  "(string list \<Rightarrow> string list) \<Rightarrow> (string \<times> (string \<Rightarrow> endpoint)) list \<Rightarrow> string list \<Rightarrow>
   (string \<Rightarrow> response) \<Rightarrow> heap \<Rightarrow> Client \<Rightarrow> string \<Rightarrow> log \<times> (error + heap \<times> Result)" where
  "get iter register register_names http_get h self name =
     (case map_of register name of
        None \<Rightarrow>
          ([], Inl (logger_exit (name @ '' is not a known endpoint! Endpoints include:''
                      @ [CHR 0x0A] @ join [CHR 0x0A] register_names)))
      | Some new_endpoint \<Rightarrow>
          (let ep = new_endpoint (baseurl self);
               lg = (if \<not> quiet self then [(INFO, ''GET '' @ url ep)] else []);
               result = http_get (url ep)
           in case response_getattr result ''status_code'' of
                Inl e \<Rightarrow> (lg, Inl e)
              | Inr status_code \<Rightarrow>
                  if status_code \<noteq> RInt 200 then
                    (case response_getattr result ''txt'' of
                       Inl e \<Rightarrow> (lg, Inl e)
                     | Inr txt \<Rightarrow>
                         (lg, Inl (SystemExit (''Issue retrieving '' @ url ep @ '':''
                                     @ [CHR 0x0A] @ str_rvalue txt))))
                  else
                    (case json result h of
                       (h', body) \<Rightarrow> (lg, Result_init iter h' body ep))))"

section \<open>Notions used in the statements\<close>

text \<open>
  The dict stored at a reference, its key set and its value at a key; the records of a
  data object (the elements of a list of dicts; an empty dict, which is what a false
  argument becomes, has none); and the union of the key sets of a list of records.
\<close>

definition dict_at :: "heap \<Rightarrow> ref \<Rightarrow> pydict option" where
  "dict_at h r = (case lookup h r of Some (PyDict kvs) \<Rightarrow> Some kvs | _ \<Rightarrow> None)"

definition keys_at :: "heap \<Rightarrow> ref \<Rightarrow> string set" where
  "keys_at h r = (case dict_at h r of None \<Rightarrow> {} | Some kvs \<Rightarrow> set (map fst kvs))"

definition value_at :: "heap \<Rightarrow> ref \<Rightarrow> string \<Rightarrow> string option" where
  "value_at h r k = (case dict_at h r of None \<Rightarrow> None | Some kvs \<Rightarrow> map_of kvs k)"

definition record_refs :: "heap \<Rightarrow> ref \<Rightarrow> ref list option" where
  "record_refs h d =
     (case lookup h d of
        None \<Rightarrow> None
      | Some (PyList rs) \<Rightarrow> if list_all (\<lambda>r. dict_at h r \<noteq> None) rs then Some rs else None
      | Some (PyDict kvs) \<Rightarrow> if kvs = [] then Some [] else None)"

definition all_keys :: "heap \<Rightarrow> ref list \<Rightarrow> string set" where
  "all_keys h rs = \<Union> (set (map (keys_at h) rs))"

text \<open>
  What the inner loop of \<^verbatim>\<open>ensure_complete\<close> does to one dict, as a function: every field
  that is not a key is appended with the empty string.
\<close>

definition fill1 :: "string \<Rightarrow> pydict \<Rightarrow> pydict" where
  "fill1 f kvs = (if f \<notin> set (map fst kvs) then kvs @ [(f, '''')] else kvs)"

definition fill :: "string list \<Rightarrow> pydict \<Rightarrow> pydict" where
  "fill fs kvs = fold fill1 fs kvs"

definition fill_obj :: "string list \<Rightarrow> pyobj \<Rightarrow> pyobj" where
  "fill_obj fs obj = (case obj of PyDict kvs \<Rightarrow> PyDict (fill fs kvs) | PyList rs \<Rightarrow> PyList rs)"

text \<open>The row that \<^verbatim>\<open>table_rows\<close> shows for the record at \<open>r\<close>, when the column width is \<open>w\<close>.\<close>

definition display_row :: "heap \<Rightarrow> endpoint \<Rightarrow> int \<Rightarrow> string list \<Rightarrow> ref \<Rightarrow> string list" where
  "display_row h ep w columns r =
     map (\<lambda>c. cell ep w c (case value_at h r c of None \<Rightarrow> [] | Some v \<Rightarrow> v)) columns"

section \<open>Example inputs\<close>

text \<open>
  The example of the specification: the records \<^verbatim>\<open>{"name": "Alice", "role": "chair"}\<close> and
  \<^verbatim>\<open>{"name": "Bob"}\<close> in a list at reference 0, and an endpoint with empty skip and
  truncate lists whose \<^verbatim>\<open>order\<close> returns its argument. \<open>h_people'\<close> is the store after
  the Result has been constructed.
\<close>

definition h_people :: heap where
  "h_people =
     [PyList [1, 2],
      PyDict [(''name'', ''Alice''), (''role'', ''chair'')],
      PyDict [(''name'', ''Bob'')]]"

definition ep_people :: endpoint where
  "ep_people =
     \<lparr>url = ''https://us-rse.org/api/people.json'', title = ''People'', emoji = ''star'',
      skip_list = [], truncate_list = [], order = (\<lambda>h d. (h, d))\<rparr>"

definition h_people' :: heap where
  "h_people' =
     [PyList [1, 2],
      PyDict [(''name'', ''Alice''), (''role'', ''chair'')],
      PyDict [(''name'', ''Bob''), (''role'', '''')]]"

definition res_people :: Result where
  "res_people = \<lparr>endpoint = ep_people, data = 0, max_widths = []\<rparr>"

text \<open>
  One record with three fields, at an endpoint that lists \<^verbatim>\<open>site\<close> and \<^verbatim>\<open>repo\<close> both in
  its skip list and in its truncate list: the only displayed column is \<^verbatim>\<open>name\<close>, and
  \<^verbatim>\<open>max_widths\<close> has two entries. \<open>res_links\<close> is the Result constructed from it.
\<close>

definition h_links :: heap where
  "h_links = [PyList [1], PyDict [(''site'', ''x''), (''repo'', ''y''), (''name'', ''hello'')]]"

definition ep_links :: endpoint where
  "ep_links =
     \<lparr>url = ''https://us-rse.org/api/links.json'', title = ''Links'', emoji = ''link'',
      skip_list = [''site'', ''repo''], truncate_list = [''site'', ''repo''],
      order = (\<lambda>h d. (h, d))\<rparr>"

definition res_links :: Result where
  "res_links = \<lparr>endpoint = ep_links, data = 0, max_widths = [(''repo'', 1), (''site'', 1)]\<rparr>"

text \<open>
  One record whose only field is in the truncate list: every displayed column is in
  \<^verbatim>\<open>max_widths\<close>.
\<close>

definition h_url :: heap where
  "h_url = [PyList [1], PyDict [(''url'', ''https://us-rse.org'')]]"

definition ep_url :: endpoint where
  "ep_url =
     \<lparr>url = ''https://us-rse.org/api/urls.json'', title = ''Urls'', emoji = ''link'',
      skip_list = [], truncate_list = [''url''], order = (\<lambda>h d. (h, d))\<rparr>"

definition res_url :: Result where
  "res_url = \<lparr>endpoint = ep_url, data = 0, max_widths = [(''url'', 18)]\<rparr>"

text \<open>
  An empty JSON array at reference 0, and the Result constructed from it: its data is the
  new empty dict at reference 1.
\<close>

definition h_none :: heap where
  "h_none = [PyList []]"

definition h_none' :: heap where
  "h_none' = [PyList [], PyDict []]"

definition res_none :: Result where
  "res_none = \<lparr>endpoint = ep_people, data = 1, max_widths = []\<rparr>"

text \<open>
  A client, a registry with the one endpoint \<^verbatim>\<open>people\<close>, and a server that answers every
  request with status 404 and the body \<^verbatim>\<open>Not Found\<close>. The response object has the
  attributes of \<^verbatim>\<open>requests.Response\<close> that matter here: \<^verbatim>\<open>status_code\<close>, \<^verbatim>\<open>text\<close>, \<^verbatim>\<open>reason\<close>
  and \<^verbatim>\<open>url\<close>.
\<close>

definition client0 :: Client where
  "client0 = \<lparr>baseurl = ''https://us-rse.org'', quiet = False\<rparr>"

definition register0 :: "(string \<times> (string \<Rightarrow> endpoint)) list" where
  "register0 = [(''people'', \<lambda>base. ep_people\<lparr>url := base @ ''/api/people.json''\<rparr>)]"

definition not_found :: "string \<Rightarrow> response" where
  "not_found u =
     \<lparr>attrs = [(''status_code'', RInt 404), (''text'', RStr ''Not Found''),
               (''reason'', RStr ''Not Found''), (''url'', RStr u)],
      json = (\<lambda>h. (h, None))\<rparr>"

section \<open>Auxiliary facts\<close>

lemma fill_Nil [simp]: "fill [] kvs = kvs" by (simp add: fill_def)

lemma fill_Cons [simp]: "fill (f # fs) kvs = fill fs (fill1 f kvs)" by (simp add: fill_def)

lemma fill_keys: "set (map fst (fill fs kvs)) = set (map fst kvs) \<union> set fs"
  by (induction fs arbitrary: kvs) (auto simp: fill1_def)

lemma fill_map_of:
  "map_of (fill fs kvs) k =
     (if k \<in> set (map fst kvs) then map_of kvs k else if k \<in> set fs then Some '''' else None)"
proof (induction fs arbitrary: kvs)
  case Nil
  show ?case by (auto simp: map_of_eq_None_iff)
next
  case (Cons f fs)
  show ?case
    by (auto simp: Cons.IH fill1_def map_of_eq_None_iff map_add_def image_iff
          split: option.splits dest!: map_of_SomeD)
qed

lemma fill_id: "set fs \<subseteq> set (map fst kvs) \<Longrightarrow> fill fs kvs = kvs"
  by (induction fs arbitrary: kvs) (auto simp: fill1_def)

lemma fill_idem: "fill fs (fill fs kvs) = fill fs kvs"
  using fill_keys[of fs kvs] by (intro fill_id) auto

lemma fill_distinct: "distinct (map fst kvs) \<Longrightarrow> distinct (map fst (fill fs kvs))"
  by (induction fs arbitrary: kvs) (auto simp: fill1_def)

lemma fill_prefix: "\<exists>ex. fill fs kvs = kvs @ ex"
proof (induction fs arbitrary: kvs)
  case Nil show ?case by simp
next
  case (Cons f fs)
  obtain ex where "fill fs (fill1 f kvs) = fill1 f kvs @ ex" using Cons.IH by blast
  then show ?case by (auto simp: fill1_def)
qed

lemma lookup_update:
  "lookup (h[r := obj]) r' = (if r' = r \<and> r < length h then Some obj else lookup h r')"
  by (auto simp: lookup_def)

lemma lookup_Some_length: "lookup h r = Some obj \<Longrightarrow> r < length h \<and> h ! r = obj"
  by (auto simp: lookup_def split: if_splits)

lemma fill_field_dict:
  assumes "lookup h r = Some (PyDict kvs)"
  shows "\<exists>mw'. fill_field trunc (VRef r) (h, mw) f = Inr (h[r := PyDict (fill1 f kvs)], mw')"
proof -
  have r: "r < length h" "h ! r = PyDict kvs" using assms lookup_Some_length by auto
  have same: "h[r := PyDict kvs] = h" using r list_update_id[of h r] by simp
  show ?thesis
  proof (cases "f \<in> set (map fst kvs)")
    case True
    then obtain v where "map_of kvs f = Some v"
      by (metis map_of_eq_None_iff not_Some_eq set_map)
    then show ?thesis using assms True
      by (auto simp: fill1_def Let_def same split: option.splits)
  next
    case False
    then show ?thesis using assms
      by (auto simp: fill1_def Let_def split: option.splits)
  qed
qed

lemma fill_entry:
  assumes "lookup h r = Some (PyDict kvs)"
  shows "\<exists>mw'. foldE (fill_field trunc (VRef r)) fs (h, mw) = Inr (h[r := PyDict (fill fs kvs)], mw')"
  using assms
proof (induction fs arbitrary: h kvs mw)
  case Nil
  then show ?case using lookup_Some_length[OF Nil] list_update_id[of h r] by simp
next
  case (Cons f fs)
  obtain mw1 where s1: "fill_field trunc (VRef r) (h, mw) f = Inr (h[r := PyDict (fill1 f kvs)], mw1)"
    using fill_field_dict[OF Cons.prems] by blast
  have "lookup (h[r := PyDict (fill1 f kvs)]) r = Some (PyDict (fill1 f kvs))"
    using lookup_Some_length[OF Cons.prems] by (simp add: lookup_update)
  from Cons.IH[OF this, of mw1] obtain mw' where
    "foldE (fill_field trunc (VRef r)) fs (h[r := PyDict (fill1 f kvs)], mw1) =
       Inr (h[r := PyDict (fill fs (fill1 f kvs))], mw')" by auto
  then show ?case using s1 by simp
qed

lemma dict_at_Some: "dict_at h r = Some kvs \<longleftrightarrow> lookup h r = Some (PyDict kvs)"
  by (auto simp: dict_at_def split: option.splits pyobj.splits)

lemma fill_entries:
  assumes "\<forall>r\<in>set rs. dict_at h r \<noteq> None"
  shows "\<exists>h' mw'.
           foldE (\<lambda>s entry. foldE (fill_field trunc entry) fs s) (map VRef rs) (h, mw) = Inr (h', mw')
         \<and> length h' = length h
         \<and> (\<forall>i<length h. h' ! i = (if i \<in> set rs then fill_obj fs (h ! i) else h ! i))"
  using assms
proof (induction rs arbitrary: h mw)
  case Nil
  show ?case by simp
next
  case (Cons r rs)
  obtain kvs where kvs: "lookup h r = Some (PyDict kvs)"
    using Cons.prems by (auto simp: dict_at_Some)
  have r: "r < length h" "h ! r = PyDict kvs" using lookup_Some_length[OF kvs] by auto
  let ?h1 = "h[r := PyDict (fill fs kvs)]"
  obtain mw1 where s1: "foldE (fill_field trunc (VRef r)) fs (h, mw) = Inr (?h1, mw1)"
    using fill_entry[OF kvs] by blast
  have "\<forall>r'\<in>set rs. dict_at ?h1 r' \<noteq> None"
    using Cons.prems r by (auto simp: dict_at_def lookup_update)
  from Cons.IH[OF this, of mw1] obtain h' mw' where
    run: "foldE (\<lambda>s entry. foldE (fill_field trunc entry) fs s) (map VRef rs) (?h1, mw1) = Inr (h', mw')"
    and len: "length h' = length ?h1"
    and at: "\<forall>i<length ?h1. h' ! i = (if i \<in> set rs then fill_obj fs (?h1 ! i) else ?h1 ! i)"
    by blast
  have "\<forall>i<length h. h' ! i = (if i \<in> set (r # rs) then fill_obj fs (h ! i) else h ! i)"
  proof (intro allI impI)
    fix i assume i: "i < length h"
    show "h' ! i = (if i \<in> set (r # rs) then fill_obj fs (h ! i) else h ! i)"
    proof (cases "i = r")
      case True
      then show ?thesis using at i r by (auto simp: fill_obj_def fill_idem)
    next
      case False
      then show ?thesis using at i by auto
    qed
  qed
  then show ?case using s1 run len by auto
qed

lemma collect_all:
  assumes "\<forall>r\<in>set rs. dict_at h r \<noteq> None"
  shows "\<exists>F. foldE (collect_fields h) (map VRef rs) acc = Inr F
           \<and> set F = set acc \<union> (\<Union>r\<in>set rs. set (map fst (the (dict_at h r))))"
  using assms
proof (induction rs arbitrary: acc)
  case Nil
  show ?case by simp
next
  case (Cons r rs)
  obtain kvs where kvs: "lookup h r = Some (PyDict kvs)"
    using Cons.prems by (auto simp: dict_at_Some)
  have step: "collect_fields h acc (VRef r) = Inr (fold List.insert (map fst kvs) acc)"
    using kvs by (simp add: collect_fields_def)
  have ins: "\<And>ks acc. set (fold List.insert ks acc) = set ks \<union> set (acc :: string list)"
    subgoal for ks acc by (induction ks arbitrary: acc) auto
    done
  have "\<forall>r\<in>set rs. dict_at h r \<noteq> None" using Cons.prems by simp
  from Cons.IH[OF this, of "fold List.insert (map fst kvs) acc"] obtain F where
    "foldE (collect_fields h) (map VRef rs) (fold List.insert (map fst kvs) acc) = Inr F"
    "set F = set (fold List.insert (map fst kvs) acc) \<union> (\<Union>r\<in>set rs. set (map fst (the (dict_at h r))))"
    by blast
  then show ?case using step kvs by (auto simp: ins dict_at_def)
qed

lemma record_refs_iter:
  assumes "record_refs h d = Some rs"
  shows "py_iter h d = Inr (map VRef rs)" and "\<forall>r\<in>set rs. dict_at h r \<noteq> None"
    and "d < length h" and "d \<notin> set rs"
  using assms
  by (auto simp: record_refs_def py_iter_def list_all_iff dict_at_def lookup_def
      split: option.splits pyobj.splits if_splits)

lemma ensure_complete_filled:
  assumes iter: "\<And>xs. set (iter xs) = set xs"
    and refs: "record_refs h (data self) = Some rs"
  shows "\<exists>h' mw fs. ensure_complete iter h self = Inr (h', self\<lparr>max_widths := mw\<rparr>)
           \<and> set fs = all_keys h rs
           \<and> length h' = length h
           \<and> (\<forall>i<length h. h' ! i = (if i \<in> set rs then fill_obj fs (h ! i) else h ! i))"
proof -
  note rr = record_refs_iter[OF refs]
  obtain F where F: "foldE (collect_fields h) (map VRef rs) [] = Inr F"
    and setF: "set F = set [] \<union> (\<Union>r\<in>set rs. set (map fst (the (dict_at h r))))"
    using collect_all[OF rr(2), of "[]"] by blast
  have "\<And>r. r \<in> set rs \<Longrightarrow> set (map fst (the (dict_at h r))) = keys_at h r"
    using rr(2) by (fastforce simp: keys_at_def)
  then have keys: "set (iter F) = all_keys h rs"
    using setF by (simp add: iter all_keys_def)
  obtain h' mw' where
    run: "foldE (\<lambda>s entry. foldE (fill_field (truncate_list (endpoint self)) entry) (iter F) s)
            (map VRef rs) (h, max_widths self) = Inr (h', mw')"
    and len: "length h' = length h"
    and at: "\<forall>i<length h. h' ! i = (if i \<in> set rs then fill_obj (iter F) (h ! i) else h ! i)"
    using fill_entries[OF rr(2)] by blast
  have "ensure_complete iter h self = Inr (h', self\<lparr>max_widths := mw'\<rparr>)"
    using rr(1) F run by (simp add: ensure_complete_def)
  then show ?thesis using keys len at by blast
qed

lemma filled_dict_at:
  assumes "dict_at h r = Some kvs" "length h' = length h" "h' ! r = fill_obj fs (h ! r)"
  shows "dict_at h' r = Some (fill fs kvs)"
  using assms by (auto simp: dict_at_def lookup_def fill_obj_def split: if_splits pyobj.splits)

lemma fill_obj_dict_iff: "(\<exists>kvs. fill_obj fs obj = PyDict kvs) \<longleftrightarrow> (\<exists>kvs. obj = PyDict kvs)"
  by (cases obj) (auto simp: fill_obj_def)

lemma keys_at_subset: "r \<in> set rs \<Longrightarrow> keys_at h r \<subseteq> all_keys h rs"
  by (auto simp: all_keys_def)


lemma Result_init_records:
  assumes iter: "\<And>xs. set (iter xs) = set xs"
    and inp: "data_or_empty h input = (h1, d1)" "record_refs h1 d1 = Some rs"
    and ord: "order ep h1 d1 = (h2, d2)" "record_refs h2 d2 = Some rs2" "set rs2 = set rs"
             "\<forall>r\<in>set rs. dict_at h2 r = dict_at h1 r"
  shows "\<exists>h3 mw. Result_init iter h input ep
                     = Inr (h3, \<lparr>endpoint = ep, data = d2, max_widths = mw\<rparr>)
           \<and> length h3 = length h2
           \<and> record_refs h3 d2 = Some rs2
           \<and> (\<forall>r\<in>set rs2. keys_at h3 r = all_keys h1 rs
                \<and> (\<forall>k\<in>all_keys h1 rs.
                      value_at h3 r k = (if k \<in> keys_at h1 r then value_at h1 r k else Some '''')))"
proof -
  let ?self = "\<lparr>endpoint = ep, data = d2, max_widths = []\<rparr>"
  have refs: "record_refs h2 (data ?self) = Some rs2" using ord(2) by simp
  obtain h3 mw fs where
    run: "ensure_complete iter h2 ?self = Inr (h3, ?self\<lparr>max_widths := mw\<rparr>)"
    and fs: "set fs = all_keys h2 rs2"
    and len: "length h3 = length h2"
    and at: "\<forall>i<length h2. h3 ! i = (if i \<in> set rs2 then fill_obj fs (h2 ! i) else h2 ! i)"
    using ensure_complete_filled[OF iter refs] by blast
  note rr = record_refs_iter[OF ord(2)]
  have init: "Result_init iter h input ep = Inr (h3, \<lparr>endpoint = ep, data = d2, max_widths = mw\<rparr>)"
    using inp(1) ord(1) run by (simp add: Result_init_def)
  have keys_same: "all_keys h2 rs2 = all_keys h1 rs"
    using ord(3,4) by (auto simp: all_keys_def keys_at_def)
  have dict3: "dict_at h3 r = Some (fill fs kvs)" if "r \<in> set rs2" "dict_at h2 r = Some kvs" for r kvs
  proof -
    have "r < length h2" using that(2) by (auto simp: dict_at_def lookup_def split: if_splits)
    then have "h3 ! r = fill_obj fs (h2 ! r)" using at that(1) by simp
    then show ?thesis using filled_dict_at[OF that(2) len] by simp
  qed
  have stored: "record_refs h3 d2 = Some rs2"
  proof -
    have d: "h3 ! d2 = h2 ! d2" using at rr(3,4) by simp
    have "list_all (\<lambda>r. dict_at h3 r \<noteq> None) rs2"
      using rr(2) dict3 by (fastforce simp: list_all_iff)
    then show ?thesis using ord(2) d len rr(3)
      by (auto simp: record_refs_def lookup_def split: option.splits pyobj.splits if_splits)
  qed
  have each: "keys_at h3 r = all_keys h1 rs
      \<and> (\<forall>k\<in>all_keys h1 rs.
            value_at h3 r k = (if k \<in> keys_at h1 r then value_at h1 r k else Some ''''))"
    if r: "r \<in> set rs2" for r
  proof -
    obtain kvs where kvs: "dict_at h2 r = Some kvs" using rr(2) r by auto
    have kvs1: "dict_at h1 r = Some kvs" using ord(3,4) r kvs by auto
    have sub: "set (map fst kvs) \<subseteq> all_keys h1 rs"
      using keys_at_subset[of r rs h1] r ord(3) kvs1 by (simp add: keys_at_def)
    have d3: "dict_at h3 r = Some (fill fs kvs)" using dict3[OF r kvs] .
    have "fst ` set (fill fs kvs) = all_keys h1 rs"
      using fill_keys[of fs kvs] sub fs keys_same by auto
    then have "keys_at h3 r = all_keys h1 rs"
      using d3 by (simp add: keys_at_def)
    moreover have "value_at h3 r k = (if k \<in> keys_at h1 r then value_at h1 r k else Some '''')"
      if "k \<in> all_keys h1 rs" for k
      using d3 kvs1 that fs keys_same by (simp add: value_at_def keys_at_def fill_map_of)
    ultimately show ?thesis by blast
  qed
  show ?thesis using init len stored each by blast
qed

lemma people_input:
  "data_or_empty h_people (Some 0) = (h_people, 0)"
  "record_refs h_people 0 = Some [1, 2]"
  "order ep_people h_people 0 = (h_people, 0)"
  "all_keys h_people [1, 2] = {''name'', ''role''}"
  "keys_at h_people 1 = {''name'', ''role''}"
  "keys_at h_people 2 = {''name''}"
  "value_at h_people 2 ''name'' = Some ''Bob''"
  by (auto simp: data_or_empty_def truthy_def record_refs_def all_keys_def keys_at_def
      value_at_def dict_at_def lookup_def h_people_def ep_people_def)

lemma parse_row_cells:
  "parse_row h ep w row columns = Inr parsed \<Longrightarrow>
     length parsed = length columns
     \<and> (\<forall>j<length columns. \<exists>content. getitem h row (columns ! j) = Inr content
            \<and> parsed ! j = cell ep w (columns ! j) content)"
proof (induction columns arbitrary: parsed)
  case Nil
  then show ?case by simp
next
  case (Cons c cs)
  from Cons.prems obtain content rest where
    c: "getitem h row c = Inr content" and rest: "parse_row h ep w row cs = Inr rest"
    and p: "parsed = cell ep w c content # rest"
    by (auto split: sum.splits)
  from Cons.IH[OF rest] have ih: "length rest = length cs"
    "\<forall>j<length cs. \<exists>content. getitem h row (cs ! j) = Inr content \<and> rest ! j = cell ep w (cs ! j) content"
    by auto
  show ?case
  proof (intro conjI allI impI)
    show "length parsed = length (c # cs)" using p ih(1) by simp
  next
    fix j assume "j < length (c # cs)"
    then show "\<exists>content. getitem h row ((c # cs) ! j) = Inr content
                 \<and> parsed ! j = cell ep w ((c # cs) ! j) content"
      using c p ih(2) by (cases j) auto
  qed
qed

lemma rows_from_length:
  "0 < limit \<Longrightarrow> length (fst (rows_from h ep w columns limit i es)) \<le> nat limit + 1 - i"
proof (induction es arbitrary: i)
  case Nil
  then show ?case by simp
next
  case (Cons e es)
  show ?case
  proof (cases "int i > limit")
    case True
    then show ?thesis using Cons.prems by simp
  next
    case False
    then have i: "i \<le> nat limit" using Cons.prems by linarith
    have "length (fst (rows_from h ep w columns limit (Suc i) es)) \<le> nat limit + 1 - Suc i"
      using Cons.IH[OF Cons.prems] .
    then show ?thesis using False i
      by (auto split: sum.splits prod.splits)
  qed
qed

lemma rows_from_complete:
  "0 < limit \<Longrightarrow> snd (rows_from h ep w columns limit i es) = None \<Longrightarrow>
     length (fst (rows_from h ep w columns limit i es)) = min (length es) (nat limit + 1 - i)"
proof (induction es arbitrary: i)
  case Nil
  then show ?case by simp
next
  case (Cons e es)
  show ?case
  proof (cases "int i > limit")
    case True
    then show ?thesis using Cons.prems by simp
  next
    case False
    then have i: "i \<le> nat limit" using Cons.prems by linarith
    from Cons.prems(2) False obtain parsed where
      p: "parse_row h ep w e columns = Inr parsed"
      by (auto split: sum.splits prod.splits)
    then have "snd (rows_from h ep w columns limit (Suc i) es) = None"
      using Cons.prems(2) False by (auto split: sum.splits prod.splits)
    from Cons.IH[OF Cons.prems(1) this] show ?thesis using False i p
      by (auto split: sum.splits prod.splits simp: Suc_diff_le)
  qed
qed

lemma rows_from_nth:
  "k < length (fst (rows_from h ep w columns limit i es)) \<Longrightarrow>
     k < length es \<and> parse_row h ep w (es ! k) columns = Inr (fst (rows_from h ep w columns limit i es) ! k)"
proof (induction es arbitrary: i k)
  case Nil
  then show ?case by simp
next
  case (Cons e es)
  show ?case
  proof (cases "limit \<noteq> 0 \<and> int i > limit")
    case True
    then show ?thesis using Cons.prems by simp
  next
    case False
    from Cons.prems False obtain parsed where
      p: "parse_row h ep w e columns = Inr parsed"
      by (auto split: sum.splits prod.splits)
    have eq: "fst (rows_from h ep w columns limit i (e # es))
              = parsed # fst (rows_from h ep w columns limit (Suc i) es)"
      using False p by (auto split: prod.splits)
    show ?thesis
    proof (cases k)
      case 0
      then show ?thesis using eq p by simp
    next
      case (Suc k')
      then have "k' < length (fst (rows_from h ep w columns limit (Suc i) es))"
        using Cons.prems eq by simp
      from Cons.IH[OF this] show ?thesis using Suc eq by simp
    qed
  qed
qed

lemma rows_from_all:
  assumes "\<forall>e\<in>set es. \<exists>parsed. parse_row h ep w e columns = Inr parsed"
  shows "snd (rows_from h ep w columns limit i es) = None"
  using assms
proof (induction es arbitrary: i)
  case Nil
  then show ?case by simp
next
  case (Cons e es)
  obtain parsed where p: "parse_row h ep w e columns = Inr parsed"
    using Cons.prems by auto
  have ih: "snd (rows_from h ep w columns limit (Suc i) es) = None"
    using Cons.IH Cons.prems by simp
  show ?case
    by (cases "rows_from h ep w columns limit (Suc i) es") (use ih p in auto)
qed

lemma getitem_dict:
  "dict_at h r = Some kvs \<Longrightarrow>
     getitem h (VRef r) c = (case map_of kvs c of None \<Rightarrow> Inl (KeyError c) | Some v \<Rightarrow> Inr v)"
  by (simp add: dict_at_Some)

lemma getitem_value_at:
  "getitem h (VRef r) c = Inr v \<Longrightarrow> value_at h r c = Some v"
  by (auto simp: value_at_def dict_at_def split: option.splits pyobj.splits)

lemma parse_row_dict:
  assumes "dict_at h r = Some kvs" "set columns \<subseteq> set (map fst kvs)"
  shows "parse_row h ep w (VRef r) columns = Inr (display_row h ep w columns r)"
  using assms(2)
proof (induction columns)
  case Nil
  show ?case by (simp add: display_row_def)
next
  case (Cons c cs)
  then obtain v where v: "map_of kvs c = Some v"
    by (metis list.set_intros(1) map_of_eq_None_iff not_Some_eq set_map subsetD)
  have "parse_row h ep w (VRef r) cs = Inr (display_row h ep w cs r)"
    using Cons by simp
  then show ?case using v assms(1) getitem_dict[OF assms(1), of c]
    by (simp add: display_row_def value_at_def del: getitem.simps)
qed

lemma rows_from_rows:
  assumes "0 < limit" "\<forall>e\<in>set es. parse_row h ep w e columns = Inr (f e)"
  shows "rows_from h ep w columns limit i es = (map f (take (nat limit + 1 - i) es), None)"
  using assms(2)
proof (induction es arbitrary: i)
  case Nil
  show ?case by simp
next
  case (Cons e es)
  have ih: "rows_from h ep w columns limit (Suc i) es = (map f (take (nat limit + 1 - Suc i) es), None)"
    using Cons by simp
  have p: "parse_row h ep w e columns = Inr (f e)" using Cons.prems by simp
  show ?case
  proof (cases "int i > limit")
    case True
    then have "nat limit + 1 - i = 0" using assms(1) by linarith
    then show ?thesis using True assms(1) by simp
  next
    case False
    then have "nat limit + 1 - i = Suc (nat limit + 1 - Suc i)" using assms(1) by linarith
    then show ?thesis using False ih p by simp
  qed
qed

lemma table_rows_records:
  assumes "available_width tty self columns = Inr (lg, w)" "record_refs h (data self) = Some rs"
  shows "table_rows tty h self columns limit =
           \<lparr>logged = lg,
            yielded = fst (rows_from h (endpoint self) w columns limit 0 (map VRef rs)),
            raised = snd (rows_from h (endpoint self) w columns limit 0 (map VRef rs))\<rparr>"
  using assms record_refs_iter(1)[OF assms(2)]
  by (simp add: table_rows_def split: prod.splits)

lemma table_rows_error:
  "available_width tty self columns = Inl e \<Longrightarrow>
     table_rows tty h self columns limit = \<lparr>logged = [], yielded = [], raised = Some e\<rparr>"
  by (simp add: table_rows_def)

subsection \<open>Cells, rows and the column width\<close>

lemma cell_truncate_list: "column \<in> set (truncate_list ep) \<Longrightarrow> cell ep w column content = content"
  by (simp add: cell_def)

lemma cell_empty: "cell ep w column [] = []"
  by (simp add: cell_def)

lemma cell_fits: "int (length content) \<le> w \<Longrightarrow> cell ep w column content = content"
  by (simp add: cell_def)

lemma cell_cut:
  assumes "0 \<le> w" "content \<noteq> []" "w < int (length content)" "column \<notin> set (truncate_list ep)"
  shows "cell ep w column content = take (nat w) content @ ''...''"
    and "int (length (take (nat w) content)) = w"
  using assms by (auto simp: cell_def py_slice_to_def)

lemma table_rows_cell:
  assumes "available_width tty self columns = Inr (lg, w)"
    and "record_refs h (data self) = Some rs"
    and "i < length (yielded (table_rows tty h self columns limit))"
    and "j < length columns"
  shows "i < length rs
       \<and> (\<exists>content. value_at h (rs ! i) (columns ! j) = Some content
            \<and> yielded (table_rows tty h self columns limit) ! i ! j
                = cell (endpoint self) w (columns ! j) content)"
proof -
  let ?rows = "fst (rows_from h (endpoint self) w columns limit 0 (map VRef rs))"
  have y: "yielded (table_rows tty h self columns limit) = ?rows"
    by (simp add: table_rows_records[OF assms(1,2)])
  then have i: "i < length ?rows" using assms(3) by simp
  from rows_from_nth[OF i] have ilen: "i < length rs"
    and p: "parse_row h (endpoint self) w (VRef (rs ! i)) columns = Inr (?rows ! i)"
    by auto
  from parse_row_cells[OF p] assms(4) obtain content where
    "getitem h (VRef (rs ! i)) (columns ! j) = Inr content"
    "?rows ! i ! j = cell (endpoint self) w (columns ! j) content"
    by blast
  then show ?thesis using ilen y getitem_value_at by auto
qed

lemma fold_needed:
  "fold (\<lambda>(_, needed) updated. updated - needed) mw (width :: int) = width - sum_list (map snd mw)"
  by (induction mw arbitrary: width) (auto split: prod.splits)

lemma int_truediv_pos: "0 \<le> a \<Longrightarrow> 0 < b \<Longrightarrow> int_truediv a b = Inr (a div b)"
  by (cases "a = 0") (auto simp: int_truediv_def sgn_if)

lemma available_width_unfold:
  assumes "columns \<noteq> []"
  shows "available_width tty self columns =
     (let width = (case tty of Some c \<Rightarrow> int c | None \<Rightarrow> 120);
          updated = width - sum_list (map snd (max_widths self))
      in if updated < 0
         then Inr ([(WARNING, ''Terminal is too small to correctly render!'')],
                   width div int (length columns))
         else (case int_truediv updated (int (length columns) - int (length (max_widths self))) of
                 Inl e \<Rightarrow> Inl e
               | Inr w \<Rightarrow> Inr ([], w)))"
proof -
  have w0: "0 \<le> (case tty of Some c \<Rightarrow> int c | None \<Rightarrow> 120)" by (simp split: option.splits)
  have c0: "0 < int (length columns)" using assms by simp
  show ?thesis
    by (simp add: available_width_def fold_needed int_truediv_pos[OF w0 c0] Let_def)
qed

lemma available_width_small:
  assumes "columns \<noteq> []"
    and "(case tty of Some c \<Rightarrow> int c | None \<Rightarrow> 120) - sum_list (map snd (max_widths self)) < 0"
  shows "available_width tty self columns
           = Inr ([(WARNING, ''Terminal is too small to correctly render!'')],
                  (case tty of Some c \<Rightarrow> int c | None \<Rightarrow> 120) div int (length columns))
       \<and> 0 \<le> (case tty of Some c \<Rightarrow> int c | None \<Rightarrow> 120) div int (length columns)"
proof -
  have w0: "0 \<le> (case tty of Some c \<Rightarrow> int c | None \<Rightarrow> 120)" by (simp split: option.splits)
  have c0: "0 < int (length columns)" using assms by simp
  have "0 \<le> (case tty of Some c \<Rightarrow> int c | None \<Rightarrow> 120) div int (length columns)"
    using w0 c0 by (simp add: pos_imp_zdiv_nonneg_iff)
  then show ?thesis using assms(2) by (simp add: available_width_unfold[OF assms(1)] Let_def)
qed

lemma available_width_nonneg:
  assumes "available_width tty self columns = Inr (lg, w)"
    and "length (max_widths self) < length columns"
  shows "0 \<le> w"
proof -
  let ?width = "case tty of Some c \<Rightarrow> int c | None \<Rightarrow> 120"
  let ?updated = "?width - sum_list (map snd (max_widths self))"
  have ne: "columns \<noteq> []" using assms(2) by auto
  have w0: "0 \<le> ?width" by (simp split: option.splits)
  have c0: "0 < int (length columns)" using ne by simp
  have d0: "0 < int (length columns) - int (length (max_widths self))" using assms(2) by simp
  show ?thesis
  proof (cases "?updated < 0")
    case True
    then show ?thesis using assms(1) available_width_small[OF ne True] by simp
  next
    case False
    then have u0: "0 \<le> ?updated" by simp
    have "w = ?updated div (int (length columns) - int (length (max_widths self)))"
      using assms(1) False
      by (simp add: available_width_unfold[OF ne] Let_def int_truediv_pos[OF u0 d0])
    then show ?thesis using u0 d0 by (simp add: pos_imp_zdiv_nonneg_iff)
  qed
qed

lemma available_width_zero_division:
  assumes "columns \<noteq> []" "length columns = length (max_widths self)"
    and "sum_list (map snd (max_widths self)) \<le> (case tty of Some c \<Rightarrow> int c | None \<Rightarrow> 120)"
  shows "available_width tty self columns = Inl ZeroDivisionError"
  using assms(2,3) by (simp add: available_width_unfold[OF assms(1)] Let_def int_truediv_def)

lemma available_width_negative:
  assumes "columns \<noteq> []" "length columns < length (max_widths self)"
    and "int (length (max_widths self)) - int (length columns)
           \<le> (case tty of Some c \<Rightarrow> int c | None \<Rightarrow> 120) - sum_list (map snd (max_widths self))"
  shows "\<exists>w. available_width tty self columns = Inr ([], w) \<and> w < 0"
proof -
  let ?updated = "(case tty of Some c \<Rightarrow> int c | None \<Rightarrow> 120) - sum_list (map snd (max_widths self))"
  let ?d = "int (length (max_widths self)) - int (length columns)"
  have d: "0 < ?d" using assms(2) by simp
  have u: "0 < ?updated" using assms(3) d by linarith
  have q: "1 \<le> ?updated div ?d" using assms(3) d
    by (metis div_by_1 div_self less_irrefl zdiv_mono1 zero_less_one_class.zero_le_one
        zdiv_mono1 order_less_imp_le)
  have "int_truediv ?updated (int (length columns) - int (length (max_widths self)))
          = Inr (- (?updated div ?d))"
    using u d by (simp add: int_truediv_def sgn_if abs_if)
  then show ?thesis using u q by (simp add: available_width_unfold[OF assms(1)] Let_def)
qed

lemma table_columns_no_records:
  "record_refs h (data self) = Some [] \<Longrightarrow>
     table_columns h self = Inl IndexError \<or> table_columns h self = Inl (KeyError ''0'')"
  by (auto simp: record_refs_def table_columns_def split: option.splits pyobj.splits if_splits list.splits)

lemma get_non_200:
  assumes "map_of register name = Some new_endpoint"
    and "response_getattr (http_get (url (new_endpoint (baseurl self)))) ''status_code'' = Inr code"
    and "code \<noteq> RInt 200"
  shows "snd (get iter register register_names http_get h self name) =
           (case map_of (attrs (http_get (url (new_endpoint (baseurl self))))) ''txt'' of
              None \<Rightarrow> Inl (AttributeError ''txt'')
            | Some v \<Rightarrow> Inl (SystemExit (''Issue retrieving '' @ url (new_endpoint (baseurl self))
                                          @ '':'' @ [CHR 0x0A] @ str_rvalue v)))"
  using assms by (simp add: get_def Let_def response_getattr_def split: option.splits)

lemma pick_color_empty: "pick_color [] (n # rnd) = Some (color n, rnd)"
  by (simp add: color_def)

lemma add_columns_styles:
  "length columns \<le> length rnd \<Longrightarrow>
     \<exists>t'. add_columns [] columns rnd t = Some (t', drop (length columns) rnd)
        \<and> map style (t_columns t') = map style (t_columns t) @ map color (take (length columns) rnd)"
proof (induction columns arbitrary: rnd t)
  case Nil
  then show ?case by simp
next
  case (Cons c cs)
  then obtain n rnd' where rnd: "rnd = n # rnd'" by (cases rnd) auto
  then have "length cs \<le> length rnd'" using Cons.prems by simp
  from Cons.IH[OF this, of "add_column (capitalize c) (color n) t"] show ?case
    using rnd by (auto simp: pick_color_empty add_column_def simp del: pick_color.simps)
qed

subsection \<open>The example inputs, evaluated\<close>

lemmas init_defs =
  Result_init_def data_or_empty_def alloc_def truthy_def lookup_def ensure_complete_def
  py_iter_def collect_fields_def

lemma people_init:
  "Result_init (\<lambda>xs. xs) h_people (Some 0) ep_people = Inr (h_people', res_people)"
  by (simp add: init_defs h_people_def h_people'_def ep_people_def res_people_def)

lemma res_people_sel:
  "data res_people = 0" "endpoint res_people = ep_people" "max_widths res_people = []"
  by (simp_all add: res_people_def)

lemma people_result:
  "record_refs h_people' (data res_people) = Some [1, 2]"
  "available_width None res_people [''name'', ''role''] = Inr ([], 60)"
  "keys_at h_people' 1 = {''name'', ''role''}"
  "keys_at h_people' 2 = {''name'', ''role''}"
  "display_row h_people' (endpoint res_people) 60 [''name'', ''role''] 1 = [''Alice'', ''chair'']"
  "display_row h_people' (endpoint res_people) 60 [''name'', ''role''] 2 = [''Bob'', '''']"
  by (auto simp: record_refs_def keys_at_def value_at_def dict_at_def lookup_def
      h_people'_def res_people_def ep_people_def available_width_def int_truediv_def
      display_row_def cell_def)

lemma people_columns: "table_columns h_people' res_people = Inr [''name'', ''role'']"
  by (simp add: table_columns_def res_people_sel lookup_def h_people'_def ep_people_def)

lemma people_rows:
  "table_rows None h_people' res_people [''name'', ''role''] 25
     = \<lparr>logged = [], yielded = [[''Alice'', ''chair''], [''Bob'', []]], raised = None\<rparr>"
  by (simp add: table_rows_def people_result(2) res_people_sel py_iter_def lookup_def cell_def
      h_people'_def ep_people_def)

lemma people_narrow:
  "available_width (Some 8) res_people [''name'', ''role''] = Inr ([], 4)"
  "table_rows (Some 8) h_people' res_people [''name'', ''role''] 25
     = \<lparr>logged = [], yielded = [[''Alic...'', ''chai...''], [''Bob'', []]], raised = None\<rparr>"
  "value_at h_people' 1 ''name'' = Some ''Alice''"
  by (simp_all add: table_rows_def available_width_def int_truediv_def res_people_sel py_iter_def
      lookup_def cell_def py_slice_to_def h_people'_def ep_people_def value_at_def dict_at_def)

lemma res_links_sel: "data res_links = 0" "endpoint res_links = ep_links"
  by (simp_all add: res_links_def)

lemma links_result:
  "Result_init (\<lambda>xs. xs) h_links (Some 0) ep_links = Inr (h_links, res_links)"
  "table_columns h_links res_links = Inr [''name'']"
  "available_width None res_links [''name''] = Inr ([], - 118)"
  "available_width (Some 4) res_links [''name''] = Inr ([], - 2)"
  "value_at h_links 1 ''name'' = Some ''hello''"
  "''name'' \<notin> set (truncate_list (endpoint res_links))"
  by (simp_all add: init_defs table_columns_def available_width_def int_truediv_def
      value_at_def dict_at_def h_links_def ep_links_def res_links_def)

lemma links_rows:
  "yielded (table_rows (Some 4) h_links res_links [''name''] 25) = [[''hel...'']]"
  by (simp add: table_rows_def links_result(4) res_links_sel py_iter_def lookup_def cell_def
      py_slice_to_def h_links_def ep_links_def)

lemma res_url_sel: "data res_url = 0" "endpoint res_url = ep_url"
  by (simp_all add: res_url_def)

lemma url_result:
  "Result_init (\<lambda>xs. xs) h_url (Some 0) ep_url = Inr (h_url, res_url)"
  "table_columns h_url res_url = Inr [''url'']"
  "available_width None res_url [''url''] = Inl ZeroDivisionError"
  by (simp_all add: init_defs table_columns_def available_width_def int_truediv_def
      h_url_def ep_url_def res_url_def)

lemma color_7: "color 7 = ''color(7)''"
  by (simp add: color_def str_nat.simps)

lemma res_none_sel: "data res_none = 1" "endpoint res_none = ep_people" "max_widths res_none = []"
  by (simp_all add: res_none_def)

subsection \<open>Writes through a reference\<close>

lemma record_refs_update_dict:
  assumes "record_refs h d = Some rs" "r \<in> set rs"
  shows "record_refs (h[r := PyDict kvs']) d = Some rs"
    and "dict_at (h[r := PyDict kvs']) r = Some kvs'"
proof -
  note rr = record_refs_iter[OF assms(1)]
  have rd: "r \<noteq> d" using rr(4) assms(2) by auto
  have rl: "r < length h" using rr(2) assms(2)
    by (auto simp: dict_at_def lookup_def split: if_splits)
  show "dict_at (h[r := PyDict kvs']) r = Some kvs'"
    using rl by (simp add: dict_at_def lookup_def)
  have all: "list_all (\<lambda>x. dict_at (h[r := PyDict kvs']) x \<noteq> None) rs"
    using rr(2) rl by (auto simp: list_all_iff dict_at_def lookup_update)
  have "lookup (h[r := PyDict kvs']) d = lookup h d" using rd by (simp add: lookup_update)
  then show "record_refs (h[r := PyDict kvs']) d = Some rs"
    using assms(1) all
    by (auto simp: record_refs_def split: option.splits pyobj.splits if_splits)
qed

lemma table_rows_emptied:
  "d = data self \<Longrightarrow> d < length h \<Longrightarrow>
     yielded (table_rows tty (h[d := PyList []]) self columns limit) = []"
  by (auto simp: table_rows_def py_iter_def lookup_def split: sum.splits prod.splits)

subsection \<open>What the generator yields when nothing is raised\<close>

text \<open>
  For a positive limit and a Result whose data is a sequence of records, \<^verbatim>\<open>table_rows\<close>
  never yields more than \<open>limit + 1\<close> rows; when no exception ends the generator it
  yields exactly \<open>min (len(data)) (limit + 1)\<close> rows; and when the width computation
  succeeds and every record has every column, no exception is raised and the rows are those
  of the first records, one per record, in the order of the data.
\<close>

lemma table_rows_limit:
  assumes "0 < limit" and "record_refs h (data self) = Some rs"
  shows "length (yielded (table_rows tty h self columns limit)) \<le> nat limit + 1
       \<and> (raised (table_rows tty h self columns limit) = None \<longrightarrow>
            length (yielded (table_rows tty h self columns limit)) = min (length rs) (nat limit + 1))
       \<and> (\<forall>lg w. available_width tty self columns = Inr (lg, w)
                \<and> (\<forall>r\<in>set rs. set columns \<subseteq> keys_at h r) \<longrightarrow>
            raised (table_rows tty h self columns limit) = None
            \<and> yielded (table_rows tty h self columns limit)
                = map (display_row h (endpoint self) w columns) (take (nat limit + 1) rs))"
proof (cases "available_width tty self columns")
  case (Inl e)
  then show ?thesis by (simp add: table_rows_error)
next
  case (Inr p)
  obtain lg w where p: "p = (lg, w)" by (cases p)
  note tr = table_rows_records[OF Inr[unfolded p] assms(2)]
  let ?es = "map VRef rs"
  let ?ep = "endpoint self"
  have a: "length (yielded (table_rows tty h self columns limit)) \<le> nat limit + 1"
    using rows_from_length[OF assms(1), of h ?ep w columns 0 ?es] by (simp add: tr)
  have b: "raised (table_rows tty h self columns limit) = None \<longrightarrow>
            length (yielded (table_rows tty h self columns limit)) = min (length rs) (nat limit + 1)"
    using rows_from_complete[OF assms(1), of h ?ep w columns 0 ?es] by (simp add: tr)
  have c: "raised (table_rows tty h self columns limit) = None
            \<and> yielded (table_rows tty h self columns limit)
                = map (display_row h ?ep w columns) (take (nat limit + 1) rs)"
    if sub: "\<forall>r\<in>set rs. set columns \<subseteq> keys_at h r"
  proof -
    have "\<forall>e\<in>set ?es. parse_row h ?ep w e columns
            = Inr ((\<lambda>e. case e of VRef r \<Rightarrow> display_row h ?ep w columns r | VStr s \<Rightarrow> []) e)"
    proof
      fix e assume "e \<in> set ?es"
      then obtain r where r: "r \<in> set rs" "e = VRef r" by auto
      obtain kvs where kvs: "dict_at h r = Some kvs"
        using record_refs_iter(2)[OF assms(2)] r(1) by auto
      have "keys_at h r = set (map fst kvs)" using kvs by (simp add: keys_at_def)
      then have "set columns \<subseteq> set (map fst kvs)" using sub r(1) by blast
      from parse_row_dict[OF kvs this] show "parse_row h ?ep w e columns
            = Inr ((\<lambda>e. case e of VRef r \<Rightarrow> display_row h ?ep w columns r | VStr s \<Rightarrow> []) e)"
        using r(2) by simp
    qed
    from rows_from_rows[OF assms(1) this, of 0] show ?thesis
      by (simp add: tr take_map comp_def)
  qed
  show ?thesis using a b c Inr p by auto
qed

lemma table_rows_limit_people:
  "length (yielded (table_rows None h_people' res_people [''name'', ''role''] 1)) \<le> nat 1 + 1
   \<and> raised (table_rows None h_people' res_people [''name'', ''role''] 1) = None
   \<and> yielded (table_rows None h_people' res_people [''name'', ''role''] 1)
       = [[''Alice'', ''chair''], [''Bob'', []]]"
proof -
  have a: "(0::int) < 1" by simp
  have sub: "\<forall>r\<in>set [1, 2]. set [''name'', ''role''] \<subseteq> keys_at h_people' r"
    by (simp add: people_result(3,4) del: One_nat_def)
  have t: "take (nat 1 + 1) [1, 2::nat] = [1, 2]" by simp
  note lim = table_rows_limit[OF a people_result(1), of None "[''name'', ''role'']"]
  have "raised (table_rows None h_people' res_people [''name'', ''role''] 1) = None
      \<and> yielded (table_rows None h_people' res_people [''name'', ''role''] 1)
          = map (display_row h_people' (endpoint res_people) 60 [''name'', ''role''])
              (take (nat 1 + 1) [1, 2])"
    using lim people_result(2) sub by blast
  then show ?thesis using lim unfolding t
    by (simp add: people_result(5,6) del: One_nat_def)
qed

text \<open>
  Let the column width computed by \<^verbatim>\<open>available_width\<close> be \<open>w\<close>. Every cell of every row
  that \<^verbatim>\<open>table_rows\<close> yields comes from the value of its column in the record of that
  row, and: a cell of a column in the truncate list is the value itself, whatever its
  length; an empty value passes through unchanged; a value no longer than \<open>w\<close> passes
  through unchanged; and when \<open>w\<close> is not negative, a non-empty value longer than \<open>w\<close>
  in a column outside the truncate list is cut to its first \<open>w\<close> characters, exactly
  \<open>w\<close> of them, followed by \<^verbatim>\<open>...\<close>.
\<close>

lemma table_rows_truncation:
  assumes "available_width tty self columns = Inr (lg, w)"
    and "record_refs h (data self) = Some rs"
    and "i < length (yielded (table_rows tty h self columns limit))"
    and "j < length columns"
  shows "\<exists>content. value_at h (rs ! i) (columns ! j) = Some content
       \<and> (columns ! j \<in> set (truncate_list (endpoint self)) \<longrightarrow>
            yielded (table_rows tty h self columns limit) ! i ! j = content)
       \<and> (content = [] \<longrightarrow> yielded (table_rows tty h self columns limit) ! i ! j = content)
       \<and> (int (length content) \<le> w \<longrightarrow>
            yielded (table_rows tty h self columns limit) ! i ! j = content)
       \<and> (0 \<le> w \<and> content \<noteq> [] \<and> w < int (length content)
            \<and> columns ! j \<notin> set (truncate_list (endpoint self)) \<longrightarrow>
            yielded (table_rows tty h self columns limit) ! i ! j = take (nat w) content @ ''...''
            \<and> int (length (take (nat w) content)) = w)"
proof -
  obtain content where c: "value_at h (rs ! i) (columns ! j) = Some content"
    and out: "yielded (table_rows tty h self columns limit) ! i ! j
                = cell (endpoint self) w (columns ! j) content"
    using table_rows_cell[OF assms] by blast
  show ?thesis
    using c cell_truncate_list cell_empty cell_fits cell_cut
    unfolding out by (intro exI[of _ content]) (auto simp: out)
qed

lemma table_rows_truncation_people:
  "yielded (table_rows (Some 8) h_people' res_people [''name'', ''role''] 25) ! 0 ! 0 = ''Alic...''
   \<and> int (length ''Alic'') = 4"
proof -
  have i: "0 < length (yielded (table_rows (Some 8) h_people' res_people [''name'', ''role''] 25))"
    by (simp add: people_narrow(2))
  have j: "0 < length [''name'', ''role'']" by simp
  from table_rows_truncation[OF people_narrow(1) people_result(1) i j] obtain content where
    c: "value_at h_people' ([1, 2] ! 0) ([''name'', ''role''] ! 0) = Some content"
    and cut: "0 \<le> (4::int) \<and> content \<noteq> [] \<and> 4 < int (length content)
            \<and> [''name'', ''role''] ! 0 \<notin> set (truncate_list (endpoint res_people)) \<longrightarrow>
            yielded (table_rows (Some 8) h_people' res_people [''name'', ''role''] 25) ! 0 ! 0
              = take (nat 4) content @ ''...''
            \<and> int (length (take (nat 4) content)) = 4"
    by blast
  have "content = ''Alice''" using c people_narrow(3) by simp
  then show ?thesis using cut by (simp add: res_people_sel ep_people_def)
qed

lemma url_records: "record_refs h_url (data res_url) = Some [1]"
  by (simp add: res_url_sel record_refs_def dict_at_def lookup_def h_url_def)

subsection \<open>Rows after a write by the caller\<close>

lemma available_width_columns: "available_width tty self columns = Inr p \<Longrightarrow> columns \<noteq> []"
  by (auto simp: available_width_def int_truediv_def Let_def)

lemma record_refs_no_keys: "record_refs h d = Some rs \<Longrightarrow> keys_at h d = {}"
  by (auto simp: record_refs_def keys_at_def dict_at_def split: option.splits pyobj.splits if_splits)

lemma dict_at_update_other: "x \<noteq> r \<Longrightarrow> dict_at (h[r := obj]) x = dict_at h x"
  by (simp add: dict_at_def lookup_update)

lemma keys_at_dict: "c \<in> keys_at h r \<Longrightarrow> dict_at h r \<noteq> None"
  by (cases "dict_at h r") (auto simp: keys_at_def)

lemma display_row_cong:
  "dict_at h' r = dict_at h r \<Longrightarrow> display_row h' ep w columns r = display_row h ep w columns r"
  by (simp add: display_row_def value_at_def)

lemma display_row_written:
  "dict_at h r = Some kvs \<Longrightarrow>
     display_row h ep w columns r
       = map (\<lambda>c. cell ep w c (case map_of kvs c of None \<Rightarrow> [] | Some v \<Rightarrow> v)) columns"
  by (simp add: display_row_def value_at_def)

lemma record_refs_update_list:
  assumes "d < length h" "d \<notin> set rs'" "\<forall>r\<in>set rs'. dict_at h r \<noteq> None"
  shows "record_refs (h[d := PyList rs']) d = Some rs'"
proof -
  have "list_all (\<lambda>r. dict_at (h[d := PyList rs']) r \<noteq> None) rs'"
    unfolding list_all_iff
  proof
    fix r assume r: "r \<in> set rs'"
    then have "r \<noteq> d" using assms(2) by auto
    then show "dict_at (h[d := PyList rs']) r \<noteq> None"
      using assms(3) r by (simp add: dict_at_update_other)
  qed
  then show ?thesis using assms(1) by (simp add: record_refs_def lookup_def)
qed

lemma table_rows_all:
  assumes "0 < limit" "record_refs h (data self) = Some rs"
    and "available_width tty self columns = Inr (lg, w)"
    and "\<forall>r\<in>set rs. set columns \<subseteq> keys_at h r"
  shows "raised (table_rows tty h self columns limit) = None"
    and "yielded (table_rows tty h self columns limit)
           = map (display_row h (endpoint self) w columns) (take (nat limit + 1) rs)"
  using table_rows_limit[OF assms(1,2), of tty columns] assms(3,4) by blast+

section \<open>Normalisation\<close>

text \<open>
  Claim C1. Take any input that is a sequence of records (a list of dicts, an empty
  container or \<^verbatim>\<open>None\<close>), any endpoint whose \<^verbatim>\<open>order\<close> returns the same record objects
  unchanged, in any order, and any iteration order of the field set. Then constructing the
  Result succeeds, and afterwards every stored record has the same key set, the union of
  the keys of all input records; a key that the original record did not have is mapped to
  the empty string, and a key it had keeps its value.
\<close>

theorem Result_init_uniform_keys:
  assumes "\<And>xs. set (iter xs) = set xs"
    and "data_or_empty h input = (h1, d1)" and "record_refs h1 d1 = Some rs"
    and "order ep h1 d1 = (h2, d2)" and "record_refs h2 d2 = Some rs2" and "set rs2 = set rs"
    and "\<forall>r\<in>set rs. dict_at h2 r = dict_at h1 r"
  shows "\<exists>h3 res. Result_init iter h input ep = Inr (h3, res)
           \<and> record_refs h3 (data res) = Some rs2
           \<and> (\<forall>r\<in>set rs2. keys_at h3 r = all_keys h1 rs
                \<and> (\<forall>k\<in>all_keys h1 rs.
                      value_at h3 r k = (if k \<in> keys_at h1 r then value_at h1 r k else Some '''')))"
proof -
  obtain h3 mw where
    "Result_init iter h input ep = Inr (h3, \<lparr>endpoint = ep, data = d2, max_widths = mw\<rparr>)"
    "record_refs h3 d2 = Some rs2"
    "\<forall>r\<in>set rs2. keys_at h3 r = all_keys h1 rs
        \<and> (\<forall>k\<in>all_keys h1 rs.
              value_at h3 r k = (if k \<in> keys_at h1 r then value_at h1 r k else Some ''''))"
    using Result_init_records[OF assms] by blast
  then show ?thesis
    by (intro exI[of _ h3] exI[of _ "\<lparr>endpoint = ep, data = d2, max_widths = mw\<rparr>"]) simp
qed

theorem Result_init_uniform_keys_witness:
  "\<exists>h3 res. Result_init (\<lambda>xs. xs) h_people (Some 0) ep_people = Inr (h3, res)
      \<and> record_refs h3 (data res) = Some [1, 2]
      \<and> keys_at h3 1 = {''name'', ''role''}
      \<and> keys_at h3 2 = {''name'', ''role''}
      \<and> value_at h3 2 ''role'' = Some ''''
      \<and> value_at h3 2 ''name'' = Some ''Bob''"
proof -
  have d: "\<forall>r\<in>set [1, 2]. dict_at h_people r = dict_at h_people r" by simp
  from Result_init_uniform_keys[of "\<lambda>xs. xs" h_people "Some 0" h_people 0 "[1, 2]" ep_people
      h_people 0 "[1, 2]", OF _ people_input(1,2,3,2) _ d]
  show ?thesis unfolding people_input(4) by (fastforce simp: people_input(6,7))
qed

section \<open>Rows and the limit\<close>

text \<open>
  Claim C6 does not hold of the code: the count of rows is that of the claim only when no
  exception ends the generator (\<open>table_rows_limit\<close> above), and \<^verbatim>\<open>table_rows\<close> calls
  \<^verbatim>\<open>available_width\<close> before the first row. Here the Result is constructed from one record
  whose only field, \<^verbatim>\<open>url\<close>, is in the truncate list, the columns are those of
  \<^verbatim>\<open>table_columns\<close> and the limit is 25: the division by
  \<^verbatim>\<open>len(columns) - len(self.max_widths)\<close>, which is zero, ends the generator with
  \<^verbatim>\<open>ZeroDivisionError\<close>, and it yields no row for one record.
\<close>

theorem table_rows_zero_division_example:
  "Result_init (\<lambda>xs. xs) h_url (Some 0) ep_url = Inr (h_url, res_url)
   \<and> table_columns h_url res_url = Inr [''url'']
   \<and> record_refs h_url (data res_url) = Some [1]
   \<and> table_rows None h_url res_url [''url''] 25
       = \<lparr>logged = [], yielded = [], raised = Some ZeroDivisionError\<rparr>"
  by (simp add: url_result url_records table_rows_error)

section \<open>Truncation of cells\<close>

text \<open>
  Claim C7 does not hold of the code where the computed width is negative; for every
  width that is not negative the cells are as the claim says (\<open>table_rows_truncation\<close>
  above). Here the record has the fields \<^verbatim>\<open>site\<close>, \<^verbatim>\<open>repo\<close> and \<^verbatim>\<open>name\<close>, the first two
  are skipped and never truncated, and the terminal is 4 columns wide, so the width is
  \<open>2 / (1 - 2) = -2\<close>; the slice \<^verbatim>\<open>content[:-2]\<close> drops the last two characters, and the
  cell of \<^verbatim>\<open>name\<close>, \<^verbatim>\<open>hello\<close>, is shown as \<^verbatim>\<open>hel...\<close>: three characters are kept.
\<close>

theorem table_rows_negative_width_example:
  "Result_init (\<lambda>xs. xs) h_links (Some 0) ep_links = Inr (h_links, res_links)
   \<and> table_columns h_links res_links = Inr [''name'']
   \<and> available_width (Some 4) res_links [''name''] = Inr ([], - 2)
   \<and> value_at h_links 1 ''name'' = Some ''hello''
   \<and> ''name'' \<notin> set (truncate_list (endpoint res_links))
   \<and> yielded (table_rows (Some 4) h_links res_links [''name''] 25) = [[''hel...'']]
   \<and> raised (table_rows (Some 4) h_links res_links [''name''] 25) = None"
  using links_result links_rows
  by (simp add: table_rows_def res_links_sel py_iter_def lookup_def cell_def py_slice_to_def
      h_links_def ep_links_def)

section \<open>The column width\<close>

text \<open>
  Claim C4 does not hold of the code: with fewer displayed columns than entries of
  \<^verbatim>\<open>max_widths\<close> the divisor \<^verbatim>\<open>len(columns) - len(self.max_widths)\<close> is negative, and
  \<^verbatim>\<open>available_width\<close> returns a negative width. Here the Result is constructed from one
  record with the fields \<^verbatim>\<open>site\<close>, \<^verbatim>\<open>repo\<close> and \<^verbatim>\<open>name\<close>, at an endpoint whose skip
  list and truncate list both hold \<^verbatim>\<open>site\<close> and \<^verbatim>\<open>repo\<close>; the columns are those of
  \<^verbatim>\<open>table_columns\<close>, the terminal width is the default 120, and the result is
  \<open>118 / (1 - 2) = -118\<close>. (The lemmas \<open>available_width_small\<close> and
  \<open>available_width_nonneg\<close> above are the part of the claim that holds.)
\<close>

theorem available_width_negative_example:
  "Result_init (\<lambda>xs. xs) h_links (Some 0) ep_links = Inr (h_links, res_links)
   \<and> table_columns h_links res_links = Inr [''name'']
   \<and> available_width None res_links [''name''] = Inr ([], - 118)"
  using links_result by simp

text \<open>
  Claim C5 does not hold of the code: when every displayed column is in \<^verbatim>\<open>max_widths\<close>
  and the reserved widths fit the terminal, the divisor is zero and nothing guards the
  division. Here the only field, \<^verbatim>\<open>url\<close>, is in the truncate list; \<^verbatim>\<open>available_width\<close>,
  \<^verbatim>\<open>table_rows\<close> and \<^verbatim>\<open>table\<close> all end with \<^verbatim>\<open>ZeroDivisionError\<close>.
\<close>

theorem available_width_zero_division_example:
  "Result_init (\<lambda>xs. xs) h_url (Some 0) ep_url = Inr (h_url, res_url)
   \<and> table_columns h_url res_url = Inr [''url'']
   \<and> available_width None res_url [''url''] = Inl ZeroDivisionError
   \<and> raised (table_rows None h_url res_url [''url''] 25) = Some ZeroDivisionError
   \<and> table None [7] h_url res_url 25 = Some (Inl ZeroDivisionError)"
  by (simp add: url_result table_rows_error table_def color_7)

section \<open>A Result without records\<close>

text \<open>
  Claim C3 does not hold of the code: for a Result constructed from an empty list or from
  \<^verbatim>\<open>None\<close>, \<^verbatim>\<open>self.data\<close> is the empty dict of \<^verbatim>\<open>data or {}\<close>, and \<^verbatim>\<open>table_columns\<close>
  raises \<^verbatim>\<open>KeyError\<close> at \<^verbatim>\<open>self.data[0]\<close> (\<^verbatim>\<open>IndexError\<close> if \<^verbatim>\<open>order\<close> returns an empty
  list, by \<open>table_columns_no_records\<close>); \<^verbatim>\<open>table_rows\<close> with the empty column list
  raises \<^verbatim>\<open>ZeroDivisionError\<close> in \<^verbatim>\<open>available_width\<close>; \<^verbatim>\<open>table\<close> and \<^verbatim>\<open>table_live\<close>
  end with the \<^verbatim>\<open>KeyError\<close>.
\<close>

theorem table_columns_empty_example:
  "Result_init (\<lambda>xs. xs) h_none (Some 0) ep_people = Inr (h_none', res_none)
   \<and> Result_init (\<lambda>xs. xs) [] None ep_people
       = Inr ([PyDict []], \<lparr>endpoint = ep_people, data = 0, max_widths = []\<rparr>)
   \<and> table_columns h_none' res_none = Inl (KeyError ''0'')
   \<and> raised (table_rows None h_none' res_none [] 25) = Some ZeroDivisionError
   \<and> table None [7] h_none' res_none 25 = Some (Inl (KeyError ''0''))
   \<and> table_live None [7] h_none' res_none 25 = Some (Inl (KeyError ''0''))"
  by (simp add: init_defs table_columns_def table_rows_def available_width_def int_truediv_def
      table_def table_live_def h_none_def h_none'_def res_none_def ep_people_def)

section \<open>The client and the export\<close>

text \<open>
  Claim C8 does not hold of the code: on a status other than 200 the message is built
  from \<^verbatim>\<open>result.txt\<close>, an attribute that the response does not have (the body is
  \<^verbatim>\<open>result.text\<close>), so \<^verbatim>\<open>Client.get\<close> raises \<^verbatim>\<open>AttributeError\<close> and the body is not
  shown. The lemma \<open>get_non_200\<close> above is the general statement.
\<close>

theorem get_non_200_example:
  "get (\<lambda>xs. xs) register0 [''people''] not_found [] client0 ''people''
     = ([(INFO, ''GET https://us-rse.org/api/people.json'')], Inl (AttributeError ''txt''))"
  by (simp add: get_def register0_def client0_def not_found_def response_getattr_def ep_people_def)

text \<open>
  Claim C9 does not hold of the code: \<^verbatim>\<open>seen_colors\<close> stays empty, so each column takes
  the first colour drawn for it (\<open>add_columns_styles\<close>), and two equal draws give two
  columns the same colour, in \<^verbatim>\<open>table\<close> and in \<^verbatim>\<open>table_live\<close>.
\<close>

theorem table_colors_repeat_example:
  "(\<exists>t. table None [7, 7] h_people' res_people 25 = Some (Inr ([], t))
        \<and> map style (t_columns t) = [''color(7)'', ''color(7)'']
        \<and> \<not> distinct (map style (t_columns t)))
   \<and> (\<exists>t n. table_live None [7, 7] h_people' res_people 25 = Some (Inr ([], t, n))
        \<and> map style (t_columns t) = [''color(7)'', ''color(7)'']
        \<and> \<not> distinct (map style (t_columns t)))"
  by (simp add: table_def table_live_def people_columns people_rows color_7 Table_def
      add_column_def add_row_def Let_def)

text \<open>
  Claim C2 does not hold of the code: \<^verbatim>\<open>save\<close> reads \<^verbatim>\<open>self.title\<close>, which a Result does
  not have (the title is \<^verbatim>\<open>self.endpoint.title\<close>), so for every Result, path and file
  system it raises \<^verbatim>\<open>AttributeError\<close> before it logs or writes anything.
\<close>

theorem save_raises:
  "save write_json to_str is_true h self outfile (fs, lg) = ((fs, lg), Some (AttributeError ''title''))"
  by (simp add: save_def Result_getattr_def Result_methods_def)

section \<open>Sharing with the caller\<close>

text \<open>
  Claim C10. Under the conditions of C1 the construction writes into the caller's own
  record dicts: at each reference \<open>r\<close> of an input record, the dict in the store after
  the construction has the union key set, with the empty string at every key the record
  did not have. \<^verbatim>\<open>to_dict\<close> returns the very reference that the Result holds as its data
  (the object that \<^verbatim>\<open>order\<close> returned: the caller's list, when \<^verbatim>\<open>order\<close> returns its
  argument), not a copy, and what \<^verbatim>\<open>table_rows\<close> yields afterwards follows every write
  through it. For a positive limit and columns for which the width \<open>w\<close> is computed:
  on the store as constructed the rows are those of the stored records; after the caller
  has put any list \<open>rs'\<close> of records that have the columns into the returned list, the
  rows are those of \<open>rs'\<close>; and after the caller has replaced the content of a record by
  \<open>kvs'\<close>, the row of that record shows the values of \<open>kvs'\<close> and every other row is as
  before. In each case no exception is raised.
\<close>

theorem Result_init_aliases:
  assumes "\<And>xs. set (iter xs) = set xs"
    and "data_or_empty h input = (h1, d1)" and "record_refs h1 d1 = Some rs"
    and "order ep h1 d1 = (h2, d2)" and "record_refs h2 d2 = Some rs2" and "set rs2 = set rs"
    and "\<forall>r\<in>set rs. dict_at h2 r = dict_at h1 r"
  shows "\<exists>h3 res. Result_init iter h input ep = Inr (h3, res)
     \<and> (\<forall>r\<in>set rs. keys_at h3 r = all_keys h1 rs
           \<and> (\<forall>k\<in>all_keys h1 rs. k \<notin> keys_at h1 r \<longrightarrow> value_at h3 r k = Some ''''))
     \<and> to_dict res = data res \<and> data res = d2
     \<and> (\<forall>tty columns limit lg w.
           0 < limit \<and> available_width tty res columns = Inr (lg, w)
           \<and> set columns \<subseteq> all_keys h1 rs \<longrightarrow>
           raised (table_rows tty h3 res columns limit) = None
           \<and> yielded (table_rows tty h3 res columns limit)
               = map (display_row h3 ep w columns) (take (nat limit + 1) rs2))
     \<and> (\<forall>tty columns limit lg w rs'.
           0 < limit \<and> available_width tty res columns = Inr (lg, w)
           \<and> (\<forall>r\<in>set rs'. set columns \<subseteq> keys_at h3 r) \<longrightarrow>
           raised (table_rows tty (h3[to_dict res := PyList rs']) res columns limit) = None
           \<and> yielded (table_rows tty (h3[to_dict res := PyList rs']) res columns limit)
               = map (display_row h3 ep w columns) (take (nat limit + 1) rs'))
     \<and> (\<forall>tty columns limit lg w r kvs'.
           0 < limit \<and> available_width tty res columns = Inr (lg, w)
           \<and> set columns \<subseteq> all_keys h1 rs \<and> r \<in> set rs
           \<and> set columns \<subseteq> set (map fst kvs') \<longrightarrow>
           raised (table_rows tty (h3[r := PyDict kvs']) res columns limit) = None
           \<and> yielded (table_rows tty (h3[r := PyDict kvs']) res columns limit)
               = map (\<lambda>x. if x = r
                           then map (\<lambda>c. cell ep w c
                                  (case map_of kvs' c of None \<Rightarrow> [] | Some v \<Rightarrow> v)) columns
                           else display_row h3 ep w columns x)
                   (take (nat limit + 1) rs2))"
proof -
  obtain h3 mw where
    init: "Result_init iter h input ep = Inr (h3, \<lparr>endpoint = ep, data = d2, max_widths = mw\<rparr>)"
    and len: "length h3 = length h2"
    and refs: "record_refs h3 d2 = Some rs2"
    and each: "\<forall>r\<in>set rs2. keys_at h3 r = all_keys h1 rs
        \<and> (\<forall>k\<in>all_keys h1 rs.
              value_at h3 r k = (if k \<in> keys_at h1 r then value_at h1 r k else Some ''''))"
    using Result_init_records[OF assms] by blast
  let ?res = "\<lparr>endpoint = ep, data = d2, max_widths = mw\<rparr>"
  have refs': "record_refs h3 (data ?res) = Some rs2" using refs by simp
  have d2: "d2 < length h3" using record_refs_iter(3)[OF refs] .
  have nokeys: "keys_at h3 d2 = {}" using record_refs_no_keys[OF refs] .
  have a: "\<forall>r\<in>set rs. keys_at h3 r = all_keys h1 rs
           \<and> (\<forall>k\<in>all_keys h1 rs. k \<notin> keys_at h1 r \<longrightarrow> value_at h3 r k = Some '''')"
    using each assms(6) by simp
  have b: "to_dict ?res = data ?res \<and> data ?res = d2" by (simp add: to_dict_def)
  have c: "raised (table_rows tty h3 ?res columns limit) = None
           \<and> yielded (table_rows tty h3 ?res columns limit)
               = map (display_row h3 ep w columns) (take (nat limit + 1) rs2)"
    if "0 < limit" "available_width tty ?res columns = Inr (lg, w)"
      "set columns \<subseteq> all_keys h1 rs"
    for tty columns limit lg w
  proof -
    have "\<forall>r\<in>set rs2. set columns \<subseteq> keys_at h3 r" using each that(3) by simp
    from table_rows_all[OF that(1) refs' that(2) this] show ?thesis by simp
  qed
  have d: "raised (table_rows tty (h3[to_dict ?res := PyList rs']) ?res columns limit) = None
           \<and> yielded (table_rows tty (h3[to_dict ?res := PyList rs']) ?res columns limit)
               = map (display_row h3 ep w columns) (take (nat limit + 1) rs')"
    if lim: "0 < limit" and aw: "available_width tty ?res columns = Inr (lg, w)"
      and cols: "\<forall>r\<in>set rs'. set columns \<subseteq> keys_at h3 r"
    for tty columns limit lg w rs'
  proof -
    let ?h4 = "h3[d2 := PyList rs']"
    obtain c0 where c0: "c0 \<in> set columns"
      using available_width_columns[OF aw] by (cases columns) auto
    have notd: "d2 \<notin> set rs'"
    proof
      assume "d2 \<in> set rs'"
      then have "c0 \<in> keys_at h3 d2" using cols c0 by blast
      then show False using nokeys by simp
    qed
    have dicts: "\<forall>r\<in>set rs'. dict_at h3 r \<noteq> None"
      using cols c0 keys_at_dict by blast
    have r4: "record_refs ?h4 (data ?res) = Some rs'"
      using record_refs_update_list[OF d2 notd dicts] by simp
    have same: "dict_at ?h4 r = dict_at h3 r" if "r \<in> set rs'" for r
      using that notd by (intro dict_at_update_other) auto
    have k4: "\<forall>r\<in>set rs'. set columns \<subseteq> keys_at ?h4 r"
      using cols same by (simp add: keys_at_def)
    have rows: "map (display_row ?h4 ep w columns) (take (nat limit + 1) rs')
                = map (display_row h3 ep w columns) (take (nat limit + 1) rs')"
    proof (rule map_cong[OF refl])
      fix x assume "x \<in> set (take (nat limit + 1) rs')"
      then have "x \<in> set rs'" by (rule in_set_takeD)
      then show "display_row ?h4 ep w columns x = display_row h3 ep w columns x"
        using same by (intro display_row_cong) simp
    qed
    from table_rows_all[OF lim r4 aw k4] rows show ?thesis by (simp add: to_dict_def)
  qed
  have e: "raised (table_rows tty (h3[r := PyDict kvs']) ?res columns limit) = None
           \<and> yielded (table_rows tty (h3[r := PyDict kvs']) ?res columns limit)
               = map (\<lambda>x. if x = r
                           then map (\<lambda>c. cell ep w c
                                  (case map_of kvs' c of None \<Rightarrow> [] | Some v \<Rightarrow> v)) columns
                           else display_row h3 ep w columns x)
                   (take (nat limit + 1) rs2)"
    if lim: "0 < limit" and aw: "available_width tty ?res columns = Inr (lg, w)"
      and cols: "set columns \<subseteq> all_keys h1 rs" and r: "r \<in> set rs"
      and new: "set columns \<subseteq> set (map fst kvs')"
    for tty columns limit lg w r kvs'
  proof -
    let ?h4 = "h3[r := PyDict kvs']"
    have r2: "r \<in> set rs2" using r assms(6) by simp
    have r4: "record_refs ?h4 (data ?res) = Some rs2"
      using record_refs_update_dict(1)[OF refs r2] by simp
    have at_r: "dict_at ?h4 r = Some kvs'"
      using record_refs_update_dict(2)[OF refs r2] .
    have other: "dict_at ?h4 x = dict_at h3 x" if "x \<noteq> r" for x
      using that by (rule dict_at_update_other)
    have k4: "\<forall>x\<in>set rs2. set columns \<subseteq> keys_at ?h4 x"
    proof
      fix x assume x: "x \<in> set rs2"
      show "set columns \<subseteq> keys_at ?h4 x"
      proof (cases "x = r")
        case True
        then show ?thesis using at_r new by (simp add: keys_at_def)
      next
        case False
        then have "keys_at ?h4 x = keys_at h3 x" using other by (simp add: keys_at_def)
        then show ?thesis using each x cols by simp
      qed
    qed
    have rows: "map (display_row ?h4 ep w columns) (take (nat limit + 1) rs2)
                = map (\<lambda>x. if x = r
                           then map (\<lambda>c. cell ep w c
                                  (case map_of kvs' c of None \<Rightarrow> [] | Some v \<Rightarrow> v)) columns
                           else display_row h3 ep w columns x)
                    (take (nat limit + 1) rs2)"
    proof (rule map_cong[OF refl])
      fix x assume "x \<in> set (take (nat limit + 1) rs2)"
      show "display_row ?h4 ep w columns x
            = (if x = r
               then map (\<lambda>c. cell ep w c
                      (case map_of kvs' c of None \<Rightarrow> [] | Some v \<Rightarrow> v)) columns
               else display_row h3 ep w columns x)"
        using display_row_written[OF at_r] display_row_cong[OF other] by auto
    qed
    from table_rows_all[OF lim r4 aw k4] rows show ?thesis by simp
  qed
  show ?thesis
    apply (intro exI[of _ h3] exI[of _ ?res] conjI)
    subgoal by (rule init)
    subgoal by (rule a)
    subgoal using b by simp
    subgoal using b by simp
    subgoal using c by blast
    subgoal using d by blast
    subgoal using e by blast
    done
qed

theorem Result_init_aliases_witness:
  "\<exists>h3 res. Result_init (\<lambda>xs. xs) h_people (Some 0) ep_people = Inr (h3, res)
      \<and> value_at h_people 2 ''role'' = None
      \<and> value_at h3 2 ''role'' = Some []
      \<and> to_dict res = data res
      \<and> yielded (table_rows None h3 res [''name'', ''role''] 25)
          = [[''Alice'', ''chair''], [''Bob'', []]]
      \<and> yielded (table_rows None (h3[to_dict res := PyList [2]]) res [''name'', ''role''] 25)
          = [[''Bob'', []]]
      \<and> yielded (table_rows None (h3[2 := PyDict [(''name'', ''Carol''), (''role'', ''treasurer'')]])
            res [''name'', ''role''] 25)
          = [[''Alice'', ''chair''], [''Carol'', ''treasurer'']]"
proof -
  let ?cols = "[''name'', ''role'']"
  let ?new = "[(''name'', ''Carol''), (''role'', ''treasurer'')]"
  have unchanged: "\<forall>r\<in>set [1, 2]. dict_at h_people r = dict_at h_people r" by simp
  from Result_init_aliases[of "\<lambda>xs. xs" h_people "Some 0" h_people 0 "[1, 2]" ep_people
      h_people 0 "[1, 2]", OF refl people_input(1,2,3,2) refl unchanged]
  obtain h3 res where
    init: "Result_init (\<lambda>xs. xs) h_people (Some 0) ep_people = Inr (h3, res)"
    and filled: "\<forall>r\<in>set [1, 2]. keys_at h3 r = all_keys h_people [1, 2]
           \<and> (\<forall>k\<in>all_keys h_people [1, 2]. k \<notin> keys_at h_people r \<longrightarrow> value_at h3 r k = Some [])"
    and same_ref: "to_dict res = data res"
    and before: "\<forall>tty columns limit lg w.
           0 < limit \<and> available_width tty res columns = Inr (lg, w)
           \<and> set columns \<subseteq> all_keys h_people [1, 2] \<longrightarrow>
           raised (table_rows tty h3 res columns limit) = None
           \<and> yielded (table_rows tty h3 res columns limit)
               = map (display_row h3 ep_people w columns) (take (nat limit + 1) [1, 2])"
    and relisted: "\<forall>tty columns limit lg w rs'.
           0 < limit \<and> available_width tty res columns = Inr (lg, w)
           \<and> (\<forall>r\<in>set rs'. set columns \<subseteq> keys_at h3 r) \<longrightarrow>
           raised (table_rows tty (h3[to_dict res := PyList rs']) res columns limit) = None
           \<and> yielded (table_rows tty (h3[to_dict res := PyList rs']) res columns limit)
               = map (display_row h3 ep_people w columns) (take (nat limit + 1) rs')"
    and rewritten: "\<forall>tty columns limit lg w r kvs'.
           0 < limit \<and> available_width tty res columns = Inr (lg, w)
           \<and> set columns \<subseteq> all_keys h_people [1, 2] \<and> r \<in> set [1, 2]
           \<and> set columns \<subseteq> set (map fst kvs') \<longrightarrow>
           raised (table_rows tty (h3[r := PyDict kvs']) res columns limit) = None
           \<and> yielded (table_rows tty (h3[r := PyDict kvs']) res columns limit)
               = map (\<lambda>x. if x = r
                           then map (\<lambda>c. cell ep_people w c
                                  (case map_of kvs' c of None \<Rightarrow> [] | Some v \<Rightarrow> v)) columns
                           else display_row h3 ep_people w columns x)
                   (take (nat limit + 1) [1, 2])"
    by (elim exE conjE) (rule that)
  have h3: "h3 = h_people'" and res: "res = res_people"
    using init people_init by simp_all
  have aw: "available_width None res ?cols = Inr ([], 60)"
    unfolding res by (rule people_result(2))
  have lim: "(0::int) < 25" by simp
  have cols: "set ?cols \<subseteq> all_keys h_people [1, 2]"
    unfolding people_input(4) by simp
  have t2: "take (nat 25 + 1) [1, 2::nat] = [1, 2]" and t1: "take (nat 25 + 1) [2::nat] = [2]"
    by simp_all
  have row1: "display_row h3 ep_people 60 ?cols 1 = [''Alice'', ''chair'']"
    and row2: "display_row h3 ep_people 60 ?cols 2 = [''Bob'', []]"
    using people_result(5,6) unfolding h3 res_people_sel by simp_all
  have two: "(2::nat) \<in> set [1, 2]" by simp
  have v1: "value_at h3 2 ''role'' = Some []"
  proof -
    from filled two have "\<forall>k\<in>all_keys h_people [1, 2]. k \<notin> keys_at h_people 2 \<longrightarrow> value_at h3 2 k = Some []"
      by blast
    then show ?thesis unfolding people_input(4,6) by simp
  qed
  have v0: "value_at h_people 2 ''role'' = None"
    by (simp add: value_at_def dict_at_def lookup_def h_people_def)
  have y0: "yielded (table_rows None h3 res ?cols 25) = [[''Alice'', ''chair''], [''Bob'', []]]"
  proof -
    from before lim aw cols have "yielded (table_rows None h3 res ?cols 25)
        = map (display_row h3 ep_people 60 ?cols) (take (nat 25 + 1) [1, 2])" by blast
    then show ?thesis unfolding t2 by (simp add: row1 row2 del: One_nat_def)
  qed
  have y1: "yielded (table_rows None (h3[to_dict res := PyList [2]]) res ?cols 25) = [[''Bob'', []]]"
  proof -
    have "\<forall>r\<in>set [2::nat]. set ?cols \<subseteq> keys_at h3 r"
      unfolding h3 by (simp add: people_result(4))
    with relisted lim aw have "yielded (table_rows None (h3[to_dict res := PyList [2]]) res ?cols 25)
        = map (display_row h3 ep_people 60 ?cols) (take (nat 25 + 1) [2])" by blast
    then show ?thesis unfolding t1 by (simp add: row2)
  qed
  have y2: "yielded (table_rows None (h3[2 := PyDict ?new]) res ?cols 25)
      = [[''Alice'', ''chair''], [''Carol'', ''treasurer'']]"
  proof -
    have "set ?cols \<subseteq> set (map fst ?new)" by simp
    with rewritten lim aw cols two have "yielded (table_rows None (h3[2 := PyDict ?new]) res ?cols 25)
        = map (\<lambda>x. if x = 2
                    then map (\<lambda>c. cell ep_people 60 c
                           (case map_of ?new c of None \<Rightarrow> [] | Some v \<Rightarrow> v)) ?cols
                    else display_row h3 ep_people 60 ?cols x)
            (take (nat 25 + 1) [1, 2])" by blast
    then show ?thesis unfolding t2 by (simp add: row1 cell_def del: One_nat_def)
  qed
  show ?thesis using init v0 v1 same_ref y0 y1 y2 by blast
qed

end
